theory Spec2Isabelle
  imports Complex_Main "HOL-Library.AList"
begin

section \<open>Python strings\<close>

text \<open>
  A Python \<open>str\<close> is a sequence of code points. What the service reads (an utterance,
  a keyword, an identifier, the error text of a collaborator) is modelled as \<open>string\<close>, a
  list of 8-bit characters, each read as the code point of the same number (U+0000 to
  U+00FF). The character tables below (\<open>str.lower\<close>, \<open>str.isspace\<close>, the classes of the
  \<open>re\<close> module) are the tables of CPython 3 restricted to that range. The text of a message
  (what a response says and what a conversation stores) may hold any code point and is a
  \<open>pystr\<close>, the list of its code points.
\<close>

type_synonym pystr = "nat list"

definition py :: "string \<Rightarrow> pystr" where
  \<comment> \<open>a string as the list of its code points\<close>
  "py s = map of_char s"

definition lower_char :: "char \<Rightarrow> char" where
  "lower_char c =
     (let n = (of_char c :: nat)
      in if (65 \<le> n \<and> n \<le> 90) \<or> (192 \<le> n \<and> n \<le> 222 \<and> n \<noteq> 215)
         then Char (digit0 c) (digit1 c) (digit2 c) (digit3 c) (digit4 c) True (digit6 c) (digit7 c)
         else c)"

definition lower :: "string \<Rightarrow> string" where
  \<comment> \<open>\<open>str.lower()\<close>\<close>
  "lower s = map lower_char s"

definition isspace :: "char \<Rightarrow> bool" where
  \<comment> \<open>\<open>str.isspace\<close> on one character; also the class \<open>\s\<close> of \<open>re\<close>\<close>
  "isspace c =
     (let n = (of_char c :: nat)
      in (9 \<le> n \<and> n \<le> 13) \<or> (28 \<le> n \<and> n \<le> 32) \<or> n = 133 \<or> n = 160)"

definition strip :: "string \<Rightarrow> string" where
  \<comment> \<open>\<open>str.strip()\<close>\<close>
  "strip s = rev (dropWhile isspace (rev (dropWhile isspace s)))"

fun startswith :: "string \<Rightarrow> string \<Rightarrow> bool" where
  \<comment> \<open>\<open>s.startswith(p)\<close>, written \<open>startswith p s\<close>\<close>
  "startswith [] s = True"
| "startswith (p # ps) [] = False"
| "startswith (p # ps) (c # cs) = (p = c \<and> startswith ps cs)"

fun contains :: "string \<Rightarrow> string \<Rightarrow> bool" where
  \<comment> \<open>the substring test \<open>k in s\<close>, written \<open>contains k s\<close>\<close>
  "contains k [] = (k = [])"
| "contains k (c # cs) = (startswith k (c # cs) \<or> contains k cs)"

definition sq :: string where
  \<comment> \<open>the character \<open>'\<close>\<close>
  "sq = [CHR 0x27]"

definition dq :: string where
  \<comment> \<open>the double quote\<close>
  "dq = [CHR 0x22]"

definition quoted :: "string \<Rightarrow> string" where
  \<comment> \<open>\<open>f"'{s}'"\<close>\<close>
  "quoted s = sq @ s @ sq"

definition join_lines :: "pystr list \<Rightarrow> pystr" where
  \<comment> \<open>\<open>"\n".join(lines)\<close>\<close>
  "join_lines ls =
     (case ls of [] \<Rightarrow> [] | l # others \<Rightarrow> l @ concat (map (\<lambda>x. 0x0A # x) others))"

definition any_in :: "string list \<Rightarrow> string \<Rightarrow> bool" where
  \<comment> \<open>\<open>any(word in s for word in words)\<close>\<close>
  "any_in ws s = list_ex (\<lambda>w. contains w s) ws"

section \<open>The fragment of \<open>re\<close> the service uses\<close>

text \<open>
  \<open>re\<close> is a backtracking matcher: at a position it tries the alternatives of a pattern
  in a fixed order and keeps the first that lets the rest of the pattern match. The model
  returns, for a pattern and a position, the list of all ways to match in that order of
  preference, so the head of the list is the match that \<open>re\<close> reports.
\<close>

datatype rx =
    Lit string                     \<comment> \<open>literal text\<close>
  | Cls "char \<Rightarrow> bool"            \<comment> \<open>one character of a class\<close>
  | Seq rx rx
  | Alt rx rx                      \<comment> \<open>\<open>a|b\<close>, left first\<close>
  | Rep nat "nat option" bool rx   \<comment> \<open>\<open>{m,n}\<close>: least, most (\<open>None\<close>: no bound), greedy\<close>
  | Grp nat rx                     \<comment> \<open>capturing group with its number\<close>
  | Eos                            \<comment> \<open>\<open>$\<close>\<close>
  | WordB                          \<comment> \<open>\<open>\b\<close>\<close>

record mstate =
  prev :: "char option"            \<comment> \<open>the character before the position\<close>
  rest :: string                   \<comment> \<open>the subject from the position on\<close>
  groups :: "(nat \<times> string) list"  \<comment> \<open>the groups matched so far\<close>

definition is_word :: "char \<Rightarrow> bool" where
  \<comment> \<open>the class \<open>\w\<close>: alphanumeric or underscore\<close>
  "is_word c =
     (let n = (of_char c :: nat)
      in (48 \<le> n \<and> n \<le> 57) \<or> (65 \<le> n \<and> n \<le> 90) \<or> n = 95 \<or> (97 \<le> n \<and> n \<le> 122)
         \<or> n = 170 \<or> n = 178 \<or> n = 179 \<or> n = 181 \<or> n = 185 \<or> n = 186
         \<or> (188 \<le> n \<and> n \<le> 190) \<or> (192 \<le> n \<and> n \<noteq> 215 \<and> n \<noteq> 247))"

definition is_digit :: "char \<Rightarrow> bool" where
  \<comment> \<open>the class \<open>\d\<close>\<close>
  "is_digit c = (let n = (of_char c :: nat) in 48 \<le> n \<and> n \<le> 57)"

definition is_alpha_ascii :: "char \<Rightarrow> bool" where
  \<comment> \<open>the ranges \<open>A-Za-z\<close>\<close>
  "is_alpha_ascii c =
     (let n = (of_char c :: nat) in (65 \<le> n \<and> n \<le> 90) \<or> (97 \<le> n \<and> n \<le> 122))"

definition not_newline :: "char \<Rightarrow> bool" where
  \<comment> \<open>the class \<open>.\<close>\<close>
  "not_newline c = (c \<noteq> CHR 0x0A)"

fun lit_match :: "bool \<Rightarrow> string \<Rightarrow> char option \<Rightarrow> string \<Rightarrow> (char option \<times> string) option" where
  \<comment> \<open>literal text at the position; under IGNORECASE both sides are lower-cased\<close>
  "lit_match ic [] p s = Some (p, s)"
| "lit_match ic (x # xs) p [] = None"
| "lit_match ic (x # xs) p (c # cs) =
     (if (if ic then lower_char x = lower_char c else x = c)
      then lit_match ic xs (Some c) cs else None)"

definition at_boundary :: "mstate \<Rightarrow> bool" where
  "at_boundary st =
     ((case prev st of None \<Rightarrow> False | Some c \<Rightarrow> is_word c)
      \<noteq> (case rest st of [] \<Rightarrow> False | c # _ \<Rightarrow> is_word c))"

definition dec_most :: "nat option \<Rightarrow> nat option" where
  "dec_most mx = (case mx of None \<Rightarrow> None | Some k \<Rightarrow> Some (k - 1))"

function repeat :: "(mstate \<Rightarrow> mstate list) \<Rightarrow> bool \<Rightarrow> nat \<Rightarrow> nat option \<Rightarrow> mstate \<Rightarrow> mstate list" where
  "repeat f greedy mn mx st =
     (if 0 < mn then
        concat (map (\<lambda>st'. if length (rest st') \<le> length (rest st)
                            then repeat f greedy (mn - 1) (dec_most mx) st' else [])
                    (f st))
      else
        (let more = (if mx = Some 0 then []
                     else concat (map (\<lambda>st'. if length (rest st') < length (rest st)
                                               then repeat f greedy 0 (dec_most mx) st' else [])
                                      (f st)))
         in if greedy then more @ [st] else st # more))"
  by pat_completeness auto
termination
  by (relation "measures [\<lambda>(f, g, mn, mx, st). length (rest st), \<lambda>(f, g, mn, mx, st). mn]") auto

primrec matches :: "rx \<Rightarrow> bool \<Rightarrow> mstate \<Rightarrow> mstate list" where
  "matches (Lit t) ic st =
     (case lit_match ic t (prev st) (rest st) of
        None \<Rightarrow> []
      | Some (p, s) \<Rightarrow> [st\<lparr>prev := p, rest := s\<rparr>])"
| "matches (Cls P) ic st =
     (case rest st of
        [] \<Rightarrow> []
      | c # cs \<Rightarrow> if P c then [st\<lparr>prev := Some c, rest := cs\<rparr>] else [])"
| "matches (Seq a b) ic st = concat (map (matches b ic) (matches a ic st))"
| "matches (Alt a b) ic st = matches a ic st @ matches b ic st"
| "matches (Rep mn mx greedy a) ic st = repeat (matches a ic) greedy mn mx st"
| "matches (Grp n a) ic st =
     map (\<lambda>st'. st'\<lparr>groups := AList.update n
                     (take (length (rest st) - length (rest st')) (rest st)) (groups st')\<rparr>)
         (matches a ic st)"
| "matches Eos ic st = (if rest st = [] \<or> rest st = [CHR 0x0A] then [st] else [])"
| "matches WordB ic st = (if at_boundary st then [st] else [])"

record rmatch =
  group0 :: string                    \<comment> \<open>the text matched\<close>
  mgroups :: "(nat \<times> string) list"
  after :: string                     \<comment> \<open>the subject behind the match\<close>

definition match_at :: "rx \<Rightarrow> bool \<Rightarrow> char option \<Rightarrow> string \<Rightarrow> rmatch option" where
  "match_at r ic p s =
     (case matches r ic \<lparr>prev = p, rest = s, groups = []\<rparr> of
        [] \<Rightarrow> None
      | st # _ \<Rightarrow> Some \<lparr>group0 = take (length s - length (rest st)) s,
                       mgroups = groups st, after = rest st\<rparr>)"

fun search_from :: "rx \<Rightarrow> bool \<Rightarrow> char option \<Rightarrow> string \<Rightarrow> rmatch option" where
  "search_from r ic p [] = match_at r ic p []"
| "search_from r ic p (c # cs) =
     (case match_at r ic p (c # cs) of
        Some m \<Rightarrow> Some m
      | None \<Rightarrow> search_from r ic (Some c) cs)"

definition search :: "rx \<Rightarrow> bool \<Rightarrow> string \<Rightarrow> rmatch option" where
  \<comment> \<open>\<open>re.search(pattern, s, flags)\<close>: the leftmost match; the flag is IGNORECASE\<close>
  "search r ic s = search_from r ic None s"

definition group :: "rmatch \<Rightarrow> nat \<Rightarrow> string option" where
  \<comment> \<open>\<open>match.group(n)\<close> for \<open>n > 0\<close>; \<open>None\<close> for a group that took no part\<close>
  "group m n = map_of (mgroups m) n"

function sub_empty_from :: "rx \<Rightarrow> bool \<Rightarrow> char option \<Rightarrow> string \<Rightarrow> string" where
  "sub_empty_from r ic p [] = []"
| "sub_empty_from r ic p (c # cs) =
     (case match_at r ic p (c # cs) of
        None \<Rightarrow> c # sub_empty_from r ic (Some c) cs
      | Some m \<Rightarrow>
          if group0 m \<noteq> [] \<and> length (after m) < length (c # cs)
          then sub_empty_from r ic (Some (last (group0 m))) (after m)
          else c # sub_empty_from r ic (Some c) cs)"
  by pat_completeness auto
termination
  by (relation "measure (\<lambda>(r, ic, p, s). length s)") auto

definition sub_empty :: "rx \<Rightarrow> bool \<Rightarrow> string \<Rightarrow> string" where
  \<comment> \<open>\<open>re.sub(pattern, '', s, flags)\<close>: every match, left to right, is removed\<close>
  "sub_empty r ic s = sub_empty_from r ic None s"

abbreviation ws :: rx where
  \<comment> \<open>\<open>\s\<close>\<close>
  "ws \<equiv> Cls isspace"

abbreviation plus :: "rx \<Rightarrow> rx" where
  \<comment> \<open>\<open>r+\<close>\<close>
  "plus r \<equiv> Rep 1 None True r"

abbreviation plus_lazy :: "rx \<Rightarrow> rx" where
  \<comment> \<open>\<open>r+?\<close>\<close>
  "plus_lazy r \<equiv> Rep 1 None False r"


section \<open>Entity extraction\<close>

type_synonym entity_map = "(string \<times> string) list"

definition location_class :: "char \<Rightarrow> bool" where
  \<comment> \<open>\<open>[A-Za-z\s,]\<close>\<close>
  "location_class c = (is_alpha_ascii c \<or> isspace c \<or> c = CHR '','')"

definition sentence_end :: "char \<Rightarrow> bool" where
  \<comment> \<open>\<open>[?.!]\<close>\<close>
  "sentence_end c = (c = CHR ''?'' \<or> c = CHR ''.'' \<or> c = CHR ''!'')"

definition location_pattern :: "string \<Rightarrow> rx" where
  \<comment> \<open>\<open>cue\s+([A-Za-z\s,]+?)(?:\s|$|[?.!])\<close>\<close>
  "location_pattern cue =
     Seq (Lit cue) (Seq (plus ws)
       (Seq (Grp 1 (plus_lazy (Cls location_class)))
            (Alt ws (Alt Eos (Cls sentence_end)))))"

definition location_patterns :: "rx list" where
  "location_patterns = map location_pattern [''in'', ''for'', ''at'', ''weather'']"

fun first_location :: "rx list \<Rightarrow> string \<Rightarrow> string option" where
  \<comment> \<open>the loop of \<open>_extract_location\<close> over the patterns still to try\<close>
  "first_location [] message = None"
| "first_location (pattern # patterns) message =
     (case search pattern True message of
        None \<Rightarrow> first_location patterns message
      | Some m \<Rightarrow>
          (case group m 1 of
             None \<Rightarrow> first_location patterns message
           | Some g \<Rightarrow>
               (let location = strip g
                in if lower location \<notin> set [''today'', ''tomorrow'', ''now'', ''there'', ''here'']
                   then Some location
                   else first_location patterns message)))"

definition extract_location :: "string \<Rightarrow> string option" where
  "extract_location message = first_location location_patterns message"

definition search_pattern :: "string \<Rightarrow> rx" where
  \<comment> \<open>\<open>cue\s+(.+?)(?:\s|$)\<close>\<close>
  "search_pattern cue =
     Seq (Lit cue) (Seq (plus ws)
       (Seq (Grp 1 (plus_lazy (Cls not_newline))) (Alt ws Eos)))"

definition search_patterns :: "rx list" where
  "search_patterns = map search_pattern [''about'', ''on'', ''regarding'', ''news'']"

definition filler_pattern :: rx where
  \<comment> \<open>\<open>\b(news|latest|today|yesterday)\b\<close>\<close>
  "filler_pattern =
     Seq WordB (Seq (Grp 1 (Alt (Lit ''news'') (Alt (Lit ''latest'')
                               (Alt (Lit ''today'') (Lit ''yesterday'')))))
                    WordB)"

fun first_news_terms :: "rx list \<Rightarrow> string \<Rightarrow> string option" where
  \<comment> \<open>the loop of \<open>_extract_news_terms\<close> over the patterns still to try\<close>
  "first_news_terms [] message = None"
| "first_news_terms (pattern # patterns) message =
     (case search pattern True message of
        None \<Rightarrow> first_news_terms patterns message
      | Some m \<Rightarrow>
          (case group m 1 of
             None \<Rightarrow> first_news_terms patterns message
           | Some g \<Rightarrow>
               (let terms = strip (sub_empty filler_pattern True (strip g))
                in if terms \<noteq> [] then Some terms
                   else first_news_terms patterns message)))"

definition extract_news_terms :: "string \<Rightarrow> string option" where
  "extract_news_terms message = first_news_terms search_patterns message"

definition time_pattern :: rx where
  \<comment> \<open>\<open>(\d{1,2}):(\d{2})\s*(am|pm)?\<close>\<close>
  "time_pattern =
     Seq (Grp 1 (Rep 1 (Some 2) True (Cls is_digit)))
       (Seq (Lit '':'')
         (Seq (Grp 2 (Rep 2 (Some 2) True (Cls is_digit)))
           (Seq (Rep 0 None True ws)
                (Rep 0 (Some 1) True (Grp 3 (Alt (Lit ''am'') (Lit ''pm'')))))))"

definition extract_time_entities :: "string \<Rightarrow> entity_map" where
  "extract_time_entities message =
     (let message_lower = lower message;
          entities =
            (if contains ''today'' message_lower then [(''date_reference'', ''today'')]
             else if contains ''tomorrow'' message_lower then [(''date_reference'', ''tomorrow'')]
             else if contains ''next week'' message_lower then [(''date_reference'', ''next_week'')]
             else if contains ''this week'' message_lower then [(''date_reference'', ''this_week'')]
             else [])
      in case search time_pattern False message_lower of
           None \<Rightarrow> entities
         | Some m \<Rightarrow> AList.update ''time'' (group0 m) entities)"

definition category_keywords :: "(string \<times> string list) list" where
  "category_keywords =
     [(''business'', [''business'', ''economy'', ''finance'', ''stock'', ''market'', ''trade'',
                      ''company'']),
      (''entertainment'', [''entertainment'', ''celebrity'', ''movie'', ''music'', ''tv'', ''show'',
                           ''actor'']),
      (''health'', [''health'', ''medical'', ''doctor'', ''hospital'', ''medicine'', ''disease'',
                    ''virus'']),
      (''science'', [''science'', ''research'', ''study'', ''discovery'', ''space'', ''technology'',
                     ''innovation'']),
      (''sports'', [''sports'', ''football'', ''basketball'', ''soccer'', ''baseball'', ''game'',
                    ''team'']),
      (''technology'', [''technology'', ''tech'', ''computer'', ''software'', ''app'', ''digital'',
                        ''ai'', ''artificial intelligence''])]"

definition detect_news_category :: "string \<Rightarrow> string option" where
  \<comment> \<open>\<open>NewsService.detect_news_category\<close>: the first category, in the order of the table,
      one of whose keywords occurs in the lower-cased query\<close>
  "detect_news_category query =
     (let query_lower = lower query
      in map_option fst (find (\<lambda>(category, keywords). any_in keywords query_lower)
                              category_keywords))"


section \<open>The data model\<close>

text \<open>
  A \<open>datetime\<close> is a reading of the local wall clock, in microseconds. Values of no fixed
  type (\<open>Any\<close>: the context of a conversation, the preferences and the conversation id a
  caller passes, the metadata of a result) are values of \<open>pyval\<close>.
\<close>

type_synonym datetime = int

datatype pyval =
    PNone
  | PBool bool
  | PInt int
  | PFloat rat
  | PStr string
  | PDateTime datetime
  | PList "pyval list"
  | PDict "(pyval \<times> pyval) list"

fun truthy :: "pyval \<Rightarrow> bool" where
  \<comment> \<open>the truth value Python gives a value in \<open>if\<close>, \<open>and\<close>, \<open>or\<close>\<close>
  "truthy PNone = False"
| "truthy (PBool b) = b"
| "truthy (PInt n) = (n \<noteq> 0)"
| "truthy (PFloat r) = (r \<noteq> 0)"
| "truthy (PStr s) = (s \<noteq> [])"
| "truthy (PDateTime t) = True"
| "truthy (PList xs) = (xs \<noteq> [])"
| "truthy (PDict kvs) = (kvs \<noteq> [])"

datatype exn = Exn (derives_exception: bool) (exn_class: string) (exn_text: string)
  \<comment> \<open>a raised exception: whether its class derives from \<open>Exception\<close> (not so for
      \<open>KeyboardInterrupt\<close>, \<open>SystemExit\<close>, \<open>GeneratorExit\<close> and \<open>asyncio.CancelledError\<close>,
      which derive from \<open>BaseException\<close> only), the name of the class and the text
      \<open>str(e)\<close>\<close>

record message =
  m_id :: string
  content :: pystr
  m_timestamp :: datetime
  is_user :: bool
  message_type :: string
  m_metadata :: "(string \<times> pyval) list"

record conversation =
  c_id :: string
  messages :: "message list"
  created_at :: datetime
  updated_at :: datetime
  c_context :: "(string \<times> pyval) list"
  user_preferences :: pyval

record user_intent =
  intent :: string
  confidence :: rat
  entities :: entity_map
  parameters :: "(string \<times> string list) list"

record chat_response =
  r_message :: pystr
  response_type :: string
  r_confidence :: rat
  actions_taken :: "string list"
  suggestions :: "string list"
  r_metadata :: "(string \<times> pyval) list"
  r_timestamp :: datetime

record 'd api_response =
  success :: bool
  data :: "'d option"
  error :: "string option"
  a_metadata :: "(string \<times> pyval) list"
  a_timestamp :: datetime

section \<open>The clock, identifiers and random choices\<close>

text \<open>
  \<open>datetime.now()\<close>, \<open>uuid.uuid4()\<close> and \<open>random.choice\<close> read the world outside the
  program. The world is passed through every function that reads it and returned
  advanced. The readings of the clock, the identifiers and the random numbers are
  arbitrary sequences: the clock is the local wall clock, and a later reading may be the
  earlier time.
\<close>

record world =
  clock :: "nat \<Rightarrow> datetime"
  readings :: nat
  uuids :: "nat \<Rightarrow> string"
  uuids_drawn :: nat
  randoms :: "nat \<Rightarrow> nat"
  randoms_drawn :: nat

definition now :: "world \<Rightarrow> datetime \<times> world" where
  \<comment> \<open>\<open>datetime.now()\<close>\<close>
  "now w = (clock w (readings w), w\<lparr>readings := readings w + 1\<rparr>)"

definition uuid4 :: "world \<Rightarrow> string \<times> world" where
  \<comment> \<open>\<open>str(uuid.uuid4())\<close>\<close>
  "uuid4 w = (uuids w (uuids_drawn w), w\<lparr>uuids_drawn := uuids_drawn w + 1\<rparr>)"

definition choice :: "'a list \<Rightarrow> world \<Rightarrow> 'a \<times> world" where
  \<comment> \<open>\<open>random.choice(xs)\<close> on a list that is not empty\<close>
  "choice xs w = (xs ! (randoms w (randoms_drawn w) mod length xs),
                  w\<lparr>randoms_drawn := randoms_drawn w + 1\<rparr>)"

definition hour :: "datetime \<Rightarrow> int" where
  \<comment> \<open>\<open>datetime.hour\<close>\<close>
  "hour t = (t div 3600000000) mod 24"

section \<open>Conversation\<close>

definition new_conversation :: "pyval \<Rightarrow> world \<Rightarrow> conversation \<times> world" where
  \<comment> \<open>\<open>Conversation(user_preferences=...)\<close>: the default factories run in field order\<close>
  "new_conversation prefs w =
     (let (i, w1) = uuid4 w;
          (t1, w2) = now w1;
          (t2, w3) = now w2
      in (\<lparr>c_id = i, messages = [], created_at = t1, updated_at = t2, c_context = [],
           user_preferences = prefs\<rparr>, w3))"

definition add_message ::
  "pystr \<Rightarrow> bool \<Rightarrow> string \<Rightarrow> (string \<times> pyval) list option \<Rightarrow> conversation \<Rightarrow> world
   \<Rightarrow> conversation \<times> world" where
  "add_message text from_user mtype metadata c w =
     (let metadata = (case metadata of None \<Rightarrow> [] | Some d \<Rightarrow> d);
          (i, w1) = uuid4 w;
          (t, w2) = now w1;
          message = \<lparr>m_id = i, content = text, m_timestamp = t, is_user = from_user,
                     message_type = mtype, m_metadata = metadata\<rparr>;
          appended = messages c @ [message];
          (t', w3) = now w2
      in (c\<lparr>messages := (if length appended > 50
                           then drop (length appended - 50) appended else appended),
            updated_at := t'\<rparr>, w3))"

definition update_context :: "string \<Rightarrow> pyval \<Rightarrow> conversation \<Rightarrow> world \<Rightarrow> conversation \<times> world" where
  "update_context key val c w =
     (let (t, w1) = now w
      in (c\<lparr>c_context := AList.update key val (c_context c), updated_at := t\<rparr>, w1))"


section \<open>ConversationService: the store\<close>

text \<open>
  \<open>self.conversations\<close> is a \<open>dict\<close>: an association list in insertion order, with one
  entry for a key. \<open>AList.update\<close> is the assignment \<open>d[k] = v\<close> and \<open>AList.delete\<close> is
  \<open>del d[k]\<close>.

  A conversation is an object that the store and the running call share. The model
  passes the conversation as a value and writes it back to the store after the call has
  changed it (\<open>store_back\<close>), if the store still holds it: that is, if its key is in the
  store, since during one call nothing else is stored under that key.
\<close>

type_synonym store = "(string \<times> conversation) list"

fun find_conversation :: "pyval \<Rightarrow> store \<Rightarrow> exn + conversation option" where
  \<comment> \<open>\<open>conversation_id in self.conversations\<close> and, if so,
      \<open>self.conversations[conversation_id]\<close>: the key is hashed first, and a list or a dict
      has no hash; the keys of the store are strings\<close>
  "find_conversation (PStr s) convs = Inr (map_of convs s)"
| "find_conversation (PList xs) convs =
     Inl (Exn True ''TypeError'' (''unhashable type: '' @ quoted ''list''))"
| "find_conversation (PDict kvs) convs =
     Inl (Exn True ''TypeError'' (''unhashable type: '' @ quoted ''dict''))"
| "find_conversation v convs = Inr None"

definition evict_oldest :: "store \<Rightarrow> store" where
  \<comment> \<open>the clean-up of \<open>_get_or_create_conversation\<close>: \<open>sorted\<close> is stable and
      \<open>[:-10]\<close> is all but the last ten\<close>
  "evict_oldest convs =
     (if length convs > 10
      then (let oldest_conversations =
                  take (length convs - 10) (sort_key (\<lambda>x. updated_at (snd x)) convs)
            in fold (\<lambda>(old_id, _) cs. AList.delete old_id cs) oldest_conversations convs)
      else convs)"

definition get_or_create_conversation ::
  "pyval \<Rightarrow> pyval \<Rightarrow> store \<Rightarrow> world \<Rightarrow> (exn + conversation) \<times> store \<times> world" where
  "get_or_create_conversation conversation_id prefs convs w =
     (let create =
            (let (conversation, w1) =
                   new_conversation (if truthy prefs then prefs else PDict []) w
             in (Inr conversation,
                 evict_oldest (AList.update (c_id conversation) conversation convs), w1))
      in if truthy conversation_id
         then (case find_conversation conversation_id convs of
                 Inl e \<Rightarrow> (Inl e, convs, w)
               | Inr (Some conversation) \<Rightarrow> (Inr conversation, convs, w)
               | Inr None \<Rightarrow> create)
         else create)"

definition store_back :: "conversation \<Rightarrow> store \<Rightarrow> store" where
  "store_back c convs =
     (if c_id c \<in> fst ` set convs then AList.update (c_id c) c convs else convs)"

section \<open>ConversationService: intent detection\<close>

definition weather_intent_keywords :: "string list" where
  \<comment> \<open>\<open>WeatherService.get_weather_intent_keywords\<close>\<close>
  "weather_intent_keywords =
     [''weather'', ''temperature'', ''temp'', ''forecast'', ''rain'', ''snow'', ''sunny'',
      ''cloudy'', ''humidity'', ''wind'', ''storm'', ''hot'', ''cold'', ''warm'', ''cool'',
      ''degrees'', ''celsius'', ''fahrenheit'', ''precipitation'', ''climate'']"

definition news_intent_keywords :: "string list" where
  \<comment> \<open>\<open>NewsService.get_news_intent_keywords\<close>\<close>
  "news_intent_keywords =
     [''news'', ''headlines'', ''latest'', ''breaking'', ''article'', ''report'', ''story'',
      ''what's happening'', ''current events'', ''today's news'', ''updates'']"

definition calendar_intent_keywords :: "string list" where
  \<comment> \<open>\<open>CalendarService.get_calendar_intent_keywords\<close>\<close>
  "calendar_intent_keywords =
     [''calendar'', ''schedule'', ''meeting'', ''appointment'', ''event'', ''remind'',
      ''book'', ''plan'', ''agenda'', ''today'', ''tomorrow'', ''next week'', ''upcoming'',
      ''create event'', ''add to calendar'', ''what's on my calendar'']"

definition intent_keywords :: "(string \<times> string list) list" where
  "intent_keywords =
     [(''weather'', weather_intent_keywords),
      (''news'', news_intent_keywords),
      (''calendar'', calendar_intent_keywords),
      (''greeting'', [''hello'', ''hi'', ''hey'', ''good morning'', ''good afternoon'',
                      ''good evening'']),
      (''goodbye'', [''bye'', ''goodbye'', ''see you'', ''farewell'', ''exit'', ''quit'']),
      (''help'', [''help'', ''what can you do'', ''commands'', ''assistance'', ''support'']),
      (''thanks'', [''thank you'', ''thanks'', ''appreciate'', ''grateful''])]"

record intent_score =
  score :: rat
  matched_keywords :: "string list"

definition match_keywords :: "string list \<Rightarrow> string \<Rightarrow> nat \<times> string list" where
  \<comment> \<open>the inner loop of \<open>_detect_intent\<close>: the count and the list of the keywords found\<close>
  "match_keywords kws message_lower =
     fold (\<lambda>keyword (n, matched).
             if contains keyword message_lower then (n + 1, matched @ [keyword])
             else (n, matched))
          kws (0, [])"

definition score_intents :: "(string \<times> string list) list \<Rightarrow> string \<Rightarrow> (string \<times> intent_score) list" where
  \<comment> \<open>the outer loop of \<open>_detect_intent\<close>: the dict \<open>intent_scores\<close>\<close>
  "score_intents table message_lower =
     fold (\<lambda>(intent_name, kws) intent_scores.
             (let (n, matched) = match_keywords kws message_lower
              in if n > 0
                 then AList.update intent_name
                        \<lparr>score = of_nat n / of_nat (length kws), matched_keywords = matched\<rparr>
                        intent_scores
                 else intent_scores))
          table []"

fun max_by :: "('a \<Rightarrow> rat) \<Rightarrow> 'a \<Rightarrow> 'a list \<Rightarrow> 'a" where
  \<comment> \<open>\<open>max(iterable, key=f)\<close> on \<open>best\<close> followed by the list: a later element replaces
      the best so far only if its key is greater\<close>
  "max_by f best [] = best"
| "max_by f best (x # xs) = max_by f (if f x > f best then x else best) xs"

definition extract_entities :: "string \<Rightarrow> string \<Rightarrow> conversation \<Rightarrow> entity_map" where
  "extract_entities message intent_name conversation =
     (let message_lower = lower message
      in if intent_name = ''weather'' then
           (let located = (case extract_location message of
                             None \<Rightarrow> []
                           | Some location \<Rightarrow>
                               if location \<noteq> [] then [(''location'', location)] else [])
            in AList.update ''time_reference''
                 (if any_in [''tomorrow'', ''today'', ''forecast'', ''week''] message_lower
                  then ''forecast'' else ''current'')
                 located)
         else if intent_name = ''news'' then
           (let categorised = (case detect_news_category message of
                                 None \<Rightarrow> []
                               | Some category \<Rightarrow>
                                   if category \<noteq> [] then [(''category'', category)] else [])
            in case extract_news_terms message of
                 None \<Rightarrow> categorised
               | Some news_terms \<Rightarrow>
                   if news_terms \<noteq> [] then AList.update ''search_terms'' news_terms categorised
                   else categorised)
         else if intent_name = ''calendar'' then
           (let action =
                  (if any_in [''schedule'', ''create'', ''add'', ''book''] message_lower
                   then ''create''
                   else if any_in [''list'', ''show'', ''what's'', ''upcoming''] message_lower
                   then ''list''
                   else ''list'')
            in fold (\<lambda>(k, v) d. AList.update k v d) (extract_time_entities message)
                    [(''action'', action)])
         else [])"

definition detect_intent :: "string \<Rightarrow> conversation \<Rightarrow> user_intent" where
  \<comment> \<open>\<open>max\<close> runs over the entries of \<open>intent_scores\<close> in insertion order; an entry
      carries its key, so the look-ups \<open>intent_scores[k]\<close> are the entry itself\<close>
  "detect_intent message conversation =
     (let message_lower = lower message;
          intent_scores = score_intents intent_keywords message_lower
      in case intent_scores of
           first # others \<Rightarrow>
             (let (primary_intent, entry) = max_by (\<lambda>(k, e). score e) first others;
                  conf = min (score entry * 2) 1;
                  found = extract_entities message primary_intent conversation
              in \<lparr>intent = primary_intent, confidence = conf, entities = found,
                   parameters = [(''matched_keywords'', matched_keywords entry)]\<rparr>)
         | [] \<Rightarrow>
             \<lparr>intent = ''general'', confidence = 1 / 2, entities = [], parameters = []\<rparr>)"


section \<open>ConversationService: the handlers\<close>

text \<open>
  The weather, news and calendar services are outside the core. Each of their calls
  catches every exception and returns an \<open>APIResponse\<close>; what a call returns is a
  parameter of the model, as is the type \<open>'d\<close> of the data. Their formatters are functions
  of the data and may raise. The cancellation of a call is not modelled.
\<close>

record 'd collaborators =
  get_current_weather :: "string \<Rightarrow> 'd api_response"
  get_weather_forecast :: "string \<Rightarrow> 'd api_response"
  format_weather_message :: "'d option \<Rightarrow> exn + pystr"
  search_news :: "string \<Rightarrow> 'd api_response"
  get_top_headlines :: "string option \<Rightarrow> 'd api_response"
  format_news_message :: "'d option \<Rightarrow> exn + pystr"
  list_events :: "'d api_response"
  format_calendar_message :: "'d option \<Rightarrow> exn + pystr"

definition make_response ::
  "pystr \<Rightarrow> string \<Rightarrow> rat \<Rightarrow> string list \<Rightarrow> string list \<Rightarrow> world \<Rightarrow> chat_response \<times> world" where
  \<comment> \<open>\<open>ChatResponse(...)\<close>: the metadata and the timestamp take their defaults\<close>
  "make_response msg rtype conf actions suggs w =
     (let (t, w1) = now w
      in (\<lparr>r_message = msg, response_type = rtype, r_confidence = conf,
           actions_taken = actions, suggestions = suggs, r_metadata = [],
           r_timestamp = t\<rparr>, w1))"

definition str_of :: "string option \<Rightarrow> string" where
  \<comment> \<open>\<open>str(x)\<close> for \<open>x: Optional[str]\<close>, as an f-string formats it\<close>
  "str_of x = (case x of None \<Rightarrow> ''None'' | Some s \<Rightarrow> s)"

definition entity_or :: "entity_map \<Rightarrow> string \<Rightarrow> string \<Rightarrow> string" where
  \<comment> \<open>\<open>entities.get(key, default)\<close>\<close>
  "entity_or ents key dflt = (case map_of ents key of None \<Rightarrow> dflt | Some v \<Rightarrow> v)"

definition weather_lookup :: "'d collaborators \<Rightarrow> user_intent \<Rightarrow> 'd api_response" where
  \<comment> \<open>the call that \<open>_handle_weather_intent\<close> awaits\<close>
  "weather_lookup svc detected =
     (let location = entity_or (entities detected) ''location'' ''current location'';
          time_ref = entity_or (entities detected) ''time_reference'' ''current''
      in if time_ref = ''forecast'' then get_weather_forecast svc location
         else get_current_weather svc location)"

definition handle_weather_intent ::
  "'d collaborators \<Rightarrow> user_intent \<Rightarrow> string \<Rightarrow> conversation \<Rightarrow> world
   \<Rightarrow> (exn + chat_response) \<times> world" where
  "handle_weather_intent svc detected message conversation w =
     (let location = entity_or (entities detected) ''location'' ''current location'';
          result = weather_lookup svc detected
      in if success result then
           (case format_weather_message svc (data result) of
              Inl e \<Rightarrow> (Inl e, w)
            | Inr formatted_message \<Rightarrow>
                (let (r, w1) = make_response formatted_message ''weather'' (confidence detected)
                                 [''Retrieved weather for '' @ location] [] w
                 in (Inr r, w1)))
         else
           (let (r, w1) = make_response
                            (py (''Sorry, I couldn't get weather information. ''
                                 @ str_of (error result)))
                            ''error'' (confidence detected) [] [] w
            in (Inr r, w1)))"

definition wanted_terms :: "user_intent \<Rightarrow> string option" where
  \<comment> \<open>the search terms when \<open>if search_terms:\<close> holds\<close>
  "wanted_terms detected =
     (case map_of (entities detected) ''search_terms'' of
        None \<Rightarrow> None
      | Some t \<Rightarrow> if t \<noteq> [] then Some t else None)"

definition news_lookup :: "'d collaborators \<Rightarrow> user_intent \<Rightarrow> 'd api_response" where
  \<comment> \<open>the call that \<open>_handle_news_intent\<close> awaits\<close>
  "news_lookup svc detected =
     (case wanted_terms detected of
        Some t \<Rightarrow> search_news svc t
      | None \<Rightarrow> get_top_headlines svc (map_of (entities detected) ''category''))"

definition handle_news_intent ::
  "'d collaborators \<Rightarrow> user_intent \<Rightarrow> string \<Rightarrow> conversation \<Rightarrow> world
   \<Rightarrow> (exn + chat_response) \<times> world" where
  "handle_news_intent svc detected message conversation w =
     (let category = map_of (entities detected) ''category'';
          wanted = wanted_terms detected;
          result = news_lookup svc detected
      in if success result then
           (case format_news_message svc (data result) of
              Inl e \<Rightarrow> (Inl e, w)
            | Inr formatted_message \<Rightarrow>
                (let action =
                       (case wanted of
                          Some t \<Rightarrow> ''Searched news for '' @ quoted t
                        | None \<Rightarrow>
                            ''Retrieved ''
                            @ (case category of
                                 None \<Rightarrow> ''general''
                               | Some c \<Rightarrow> if c \<noteq> [] then c else ''general'')
                            @ '' news'');
                     (r, w1) = make_response formatted_message ''news'' (confidence detected)
                                 [action] [] w
                 in (Inr r, w1)))
         else
           (let (r, w1) = make_response
                            (py (''Sorry, I couldn't get news information. ''
                                 @ str_of (error result)))
                            ''error'' (confidence detected) [] [] w
            in (Inr r, w1)))"

definition handle_calendar_intent ::
  "'d collaborators \<Rightarrow> user_intent \<Rightarrow> string \<Rightarrow> conversation \<Rightarrow> world
   \<Rightarrow> (exn + chat_response) \<times> world" where
  "handle_calendar_intent svc detected message conversation w =
     (let action = entity_or (entities detected) ''action'' ''list''
      in if action = ''list'' then
           (let result = list_events svc
            in if success result then
                 (case format_calendar_message svc (data result) of
                    Inl e \<Rightarrow> (Inl e, w)
                  | Inr formatted_message \<Rightarrow>
                      (let (r, w1) = make_response formatted_message ''calendar''
                                       (confidence detected) [''Retrieved calendar events''] [] w
                       in (Inr r, w1)))
               else
                 (let (r, w1) = make_response
                                  (py (''Sorry, I couldn't access your calendar. ''
                                       @ str_of (error result)))
                                  ''error'' (confidence detected) [] [] w
                  in (Inr r, w1)))
         else
           (let (r, w1) = make_response
                            (py (''I can help you view your calendar events. To create ''
                                 @ ''events, please use specific commands like 'Schedule a ''
                                 @ ''meeting tomorrow at 2 PM'' @ sq @ ''.''))
                            ''calendar'' (confidence detected) []
                            [''What's on my calendar today?'', ''Show upcoming events''] w
            in (Inr r, w1)))"

definition handle_greeting_intent ::
  "user_intent \<Rightarrow> string \<Rightarrow> conversation \<Rightarrow> world \<Rightarrow> chat_response \<times> world" where
  "handle_greeting_intent detected message conversation w =
     (let (t, w1) = now w;
          greeting = (if hour t < 12 then ''Good morning! How can I assist you today?''
                      else if hour t < 17 then ''Good afternoon! What can I help you with?''
                      else ''Good evening! How may I be of service?'')
      in make_response (py greeting) ''greeting'' (confidence detected) []
           [''What's the weather like?'', ''Show me the latest news'',
            ''What's on my calendar today?'', ''What can you do?''] w1)"

definition handle_goodbye_intent ::
  "user_intent \<Rightarrow> string \<Rightarrow> conversation \<Rightarrow> world \<Rightarrow> chat_response \<times> world" where
  "handle_goodbye_intent detected message conversation w =
     (let (farewell, w1) =
            choice [''Goodbye! Have a great day!'',
                    ''See you later! Feel free to ask me anything anytime.'',
                    ''Farewell! I'm always here when you need assistance.''] w
      in make_response (py farewell) ''goodbye'' (confidence detected) [] [] w1)"

definition bullet :: pystr where
  \<comment> \<open>three spaces, U+2022 and a space\<close>
  "bullet = py ''   '' @ [0x2022] @ py '' ''"

definition help_message :: pystr where
  \<comment> \<open>the lines of the text, joined by newlines\<close>
  "help_message = join_lines
     [[0x1F916] @ py '' **Personal AI Assistant - Help**'',
      [],
      py ''I can help you with:'',
      [],
      [0x1F324, 0xFE0F] @ py '' **Weather**: '',
      bullet @ py (dq @ ''What's the weather in New York?'' @ dq),
      bullet @ py (dq @ ''Will it rain today?'' @ dq),
      bullet @ py (dq @ ''Weather forecast for this week'' @ dq),
      [],
      [0x1F4F0] @ py '' **News**: '',
      bullet @ py (dq @ ''Show me the latest news'' @ dq),
      bullet @ py (dq @ ''Technology news'' @ dq),
      bullet @ py (dq @ ''News about climate change'' @ dq),
      [],
      [0x1F4C5] @ py '' **Calendar**: '',
      bullet @ py (dq @ ''What's on my calendar today?'' @ dq),
      bullet @ py (dq @ ''Show upcoming events'' @ dq),
      bullet @ py (dq @ ''Schedule a meeting'' @ dq @ '' (basic support)''),
      [],
      [0x1F3A4] @ py '' **Voice Commands**: '',
      bullet @ py ''Click the microphone button to speak'',
      bullet @ py ''I can respond with voice too!'',
      [],
      py ''Just ask me naturally - I understand conversational language!'']"

definition handle_help_intent ::
  "user_intent \<Rightarrow> string \<Rightarrow> conversation \<Rightarrow> world \<Rightarrow> chat_response \<times> world" where
  "handle_help_intent detected message conversation w =
     make_response help_message ''help'' (confidence detected) []
       [''Weather in London'', ''Latest tech news'', ''My calendar today''] w"

definition handle_thanks_intent ::
  "user_intent \<Rightarrow> string \<Rightarrow> conversation \<Rightarrow> world \<Rightarrow> chat_response \<times> world" where
  "handle_thanks_intent detected message conversation w =
     (let (response, w1) =
            choice [''You're welcome! Happy to help!'',
                    ''My pleasure! Is there anything else you need?'',
                    ''Glad I could help! Feel free to ask me anything else.''] w
      in make_response (py response) ''thanks'' (confidence detected) []
           [''What else can you do?'', ''Show me the weather'', ''Latest news please''] w1)"

definition handle_general_intent ::
  "user_intent \<Rightarrow> string \<Rightarrow> conversation \<Rightarrow> world \<Rightarrow> chat_response \<times> world" where
  "handle_general_intent detected message conversation w =
     (let (response, w1) =
            choice [''I understand you're trying to communicate with me, but I'm not sure ''
                    @ ''exactly what you need. Could you be more specific?'',
                    ''I'm here to help with weather, news, and calendar information. ''
                    @ ''What would you like to know?'',
                    ''I didn't quite understand that. You can ask me about the weather, ''
                    @ ''latest news, or your calendar events.''] w
      in make_response (py response) ''general'' (3 / 10) []
           [''Help - show me what you can do'', ''What's the weather like?'',
            ''Show me today's news'', ''What's on my calendar?''] w1)"

definition handle_intent ::
  "'d collaborators \<Rightarrow> user_intent \<Rightarrow> string \<Rightarrow> conversation \<Rightarrow> world
   \<Rightarrow> (exn + chat_response) \<times> world" where
  "handle_intent svc detected message conversation w =
     (let plain = (\<lambda>(r, w1). (Inr r, w1))
      in if intent detected = ''weather'' then
           handle_weather_intent svc detected message conversation w
         else if intent detected = ''news'' then
           handle_news_intent svc detected message conversation w
         else if intent detected = ''calendar'' then
           handle_calendar_intent svc detected message conversation w
         else if intent detected = ''greeting'' then
           plain (handle_greeting_intent detected message conversation w)
         else if intent detected = ''goodbye'' then
           plain (handle_goodbye_intent detected message conversation w)
         else if intent detected = ''help'' then
           plain (handle_help_intent detected message conversation w)
         else if intent detected = ''thanks'' then
           plain (handle_thanks_intent detected message conversation w)
         else
           plain (handle_general_intent detected message conversation w))"

section \<open>ConversationService: processing a message\<close>

definition process_body ::
  "'d collaborators \<Rightarrow> string \<Rightarrow> pyval \<Rightarrow> pyval \<Rightarrow> store \<Rightarrow> world
   \<Rightarrow> (exn + chat_response api_response) \<times> store \<times> world" where
  \<comment> \<open>the body of the \<open>try\<close> in \<open>process_message\<close>\<close>
  "process_body svc message conversation_id prefs convs w =
     (case get_or_create_conversation conversation_id prefs convs w of
        (Inl e, convs1, w1) \<Rightarrow> (Inl e, convs1, w1)
      | (Inr conversation, convs1, w1) \<Rightarrow>
          (let (c2, w2) = add_message (py message) True ''text'' None conversation w1;
               convs2 = store_back c2 convs1;
               detected = detect_intent message c2
           in case handle_intent svc detected message c2 w2 of
                (Inl e, w3) \<Rightarrow> (Inl e, convs2, w3)
              | (Inr response, w3) \<Rightarrow>
                  (let (c3, w4) = add_message (r_message response) False ''text'' None c2 w3;
                       (c4, w5) = update_context ''last_intent'' (PStr (intent detected)) c3 w4;
                       (t, w6) = now w5;
                       (c5, w7) = update_context ''last_message_time'' (PDateTime t) c4 w6;
                       convs3 = store_back c5 convs2;
                       (ts, w8) = now w7
                   in (Inr \<lparr>success = True, data = Some response, error = None,
                             a_metadata = [(''conversation_id'', PStr (c_id c5)),
                                           (''intent'', PStr (intent detected)),
                                           (''confidence'', PFloat (confidence detected))],
                             a_timestamp = ts\<rparr>,
                       convs3, w8))))"

definition process_message ::
  "'d collaborators \<Rightarrow> string \<Rightarrow> pyval \<Rightarrow> pyval \<Rightarrow> store \<Rightarrow> world
   \<Rightarrow> (exn + chat_response api_response) \<times> store \<times> world" where
  \<comment> \<open>the \<open>try\<close> with its \<open>except Exception\<close>: an exception of a class that does not
      derive from \<open>Exception\<close> is not caught and leaves the call (\<open>Inl\<close>)\<close>
  "process_message svc message conversation_id prefs convs w =
     (case process_body svc message conversation_id prefs convs w of
        (Inr result, convs1, w1) \<Rightarrow> (Inr result, convs1, w1)
      | (Inl e, convs1, w1) \<Rightarrow>
          if derives_exception e
          then (let (ts, w2) = now w1
                in (Inr \<lparr>success = False, data = None,
                          error = Some (''Failed to process message: '' @ exn_text e),
                          a_metadata = [], a_timestamp = ts\<rparr>,
                    convs1, w2))
          else (Inl e, convs1, w1))"

section \<open>The store over the life of the service\<close>

text \<open>
  The service starts with an empty store, and only \<open>process_message\<close> changes the store.
  \<open>serve\<close> runs the service on a list of requests. \<open>store_inv\<close> is what holds of the
  store whenever a request arrives: at most ten conversations, one for a key, each under
  its own id.
\<close>

record 'd request =
  req_services :: "'d collaborators"
  req_utterance :: string
  req_conversation :: pyval
  req_preferences :: pyval

fun serve :: "'d request list \<Rightarrow> store \<Rightarrow> world \<Rightarrow> store \<times> world" where
  "serve [] convs w = (convs, w)"
| "serve (r # rs) convs w =
     (case process_message (req_services r) (req_utterance r) (req_conversation r)
             (req_preferences r)
             convs w of
        (result, convs', w') \<Rightarrow> serve rs convs' w')"

definition store_inv :: "store \<Rightarrow> bool" where
  "store_inv convs =
     (length convs \<le> 10 \<and> distinct (map fst convs) \<and> list_all (\<lambda>(k, c). c_id c = k) convs)"

section \<open>Example inputs\<close>

definition example_world :: world where
  "example_world =
     \<lparr>clock = (\<lambda>n. int n), readings = 0,
      uuids = (\<lambda>n. ''id-'' @ replicate n (CHR ''x'')), uuids_drawn = 0,
      randoms = (\<lambda>n. n), randoms_drawn = 0\<rparr>"

definition example_message :: "nat \<Rightarrow> message" where
  "example_message n =
     \<lparr>m_id = ''m-'' @ replicate n (CHR ''i''), content = py ''hello'', m_timestamp = int n,
      is_user = True, message_type = ''text'', m_metadata = []\<rparr>"

definition full_conversation :: conversation where
  \<comment> \<open>a conversation that holds 50 messages\<close>
  "full_conversation =
     \<lparr>c_id = ''c'', messages = map example_message [0..<50], created_at = 0,
      updated_at = 50, c_context = [], user_preferences = PDict []\<rparr>"

definition failing :: "string \<Rightarrow> unit api_response" where
  \<comment> \<open>the result of a collaborator whose call failed\<close>
  "failing reason =
     \<lparr>success = False, data = None, error = Some reason, a_metadata = [], a_timestamp = 0\<rparr>"

definition example_services :: "unit collaborators" where
  \<comment> \<open>collaborators none of which can be reached\<close>
  "example_services =
     \<lparr>get_current_weather = (\<lambda>l. failing (''Location '' @ quoted l @ '' not found'')),
      get_weather_forecast = (\<lambda>l. failing (''Location '' @ quoted l @ '' not found'')),
      format_weather_message = (\<lambda>d. Inr (py ''weather'')),
      search_news = (\<lambda>q. failing ''News API key not configured''),
      get_top_headlines = (\<lambda>c. failing ''News API key not configured''),
      format_news_message = (\<lambda>d. Inr (py ''news'')),
      list_events = failing ''Calendar service not available'',
      format_calendar_message = (\<lambda>d. Inr (py ''calendar''))\<rparr>"

definition example_conversation :: conversation where
  \<comment> \<open>the first conversation created in \<open>example_world\<close>\<close>
  "example_conversation =
     \<lparr>c_id = ''id-'', messages = [], created_at = 0, updated_at = 1, c_context = [],
      user_preferences = PDict []\<rparr>"









section \<open>The classification as the specification words it\<close>

text \<open>
  The specification scores an intent by the number of its keywords that occur in the
  lower-cased utterance, divided by the number of its keywords. These definitions follow
  those words; the theorems compare them with \<open>detect_intent\<close>.
\<close>

definition hits :: "string list \<Rightarrow> string \<Rightarrow> string list" where
  \<comment> \<open>the keywords of a lexicon that occur in the lower-cased utterance\<close>
  "hits kws utterance = filter (\<lambda>k. contains k (lower utterance)) kws"

definition keyword_score :: "string list \<Rightarrow> string \<Rightarrow> rat" where
  "keyword_score kws utterance = of_nat (length (hits kws utterance)) / of_nat (length kws)"

definition scored :: "string \<Rightarrow> string \<times> string list \<Rightarrow> string \<times> intent_score" where
  \<comment> \<open>the entry of \<open>intent_scores\<close> for an intent of the table\<close>
  "scored u = (\<lambda>(name, kws). (name, \<lparr>score = keyword_score kws u, matched_keywords = hits kws u\<rparr>))"

definition qualifies :: "string \<Rightarrow> string \<times> string list \<Rightarrow> bool" where
  \<comment> \<open>an intent of the table with a keyword in the utterance\<close>
  "qualifies u = (\<lambda>(name, kws). hits kws u \<noteq> [])"

definition greeting_keywords :: "string list" where
  "greeting_keywords =
     [''hello'', ''hi'', ''hey'', ''good morning'', ''good afternoon'', ''good evening'']"

section \<open>The message cap of a conversation\<close>

lemma drop_one_snoc: "xs \<noteq> [] \<Longrightarrow> drop (Suc 0) (xs @ [x]) = tl xs @ [x]"
  by (cases xs) simp_all

text \<open>
  C4. After \<open>add_message\<close> a conversation holds at most 50 messages, whatever it held
  before. Added to a conversation that holds 50, the new message is the last of exactly
  50: the oldest message is gone and the other 49 keep their order.
\<close>

theorem add_message_cap:
  "length (messages (fst (add_message text u mt md c w))) \<le> 50 \<and>
   (length (messages c) = 50 \<longrightarrow>
      length (messages (fst (add_message text u mt md c w))) = 50 \<and>
      messages (fst (add_message text u mt md c w)) =
        tl (messages c) @
        [\<lparr>m_id = fst (uuid4 w), content = text, m_timestamp = fst (now w), is_user = u,
          message_type = mt, m_metadata = (case md of None \<Rightarrow> [] | Some d \<Rightarrow> d)\<rparr>])"
proof -
  let ?m = "\<lparr>m_id = fst (uuid4 w), content = text, m_timestamp = fst (now w), is_user = u,
             message_type = mt, m_metadata = (case md of None \<Rightarrow> [] | Some d \<Rightarrow> d)\<rparr>"
  let ?ms = "messages c @ [?m]"
  have eq: "messages (fst (add_message text u mt md c w)) =
              (if length ?ms > 50 then drop (length ?ms - 50) ?ms else ?ms)"
    by (simp add: add_message_def uuid4_def now_def Let_def split_def)
  have cap: "length (if length ?ms > 50 then drop (length ?ms - 50) ?ms else ?ms) \<le> 50"
    by simp
  have full: "length (messages c) = 50 \<Longrightarrow>
                (if length ?ms > 50 then drop (length ?ms - 50) ?ms else ?ms)
                  = tl (messages c) @ [?m]"
  proof -
    assume len: "length (messages c) = 50"
    then have ne: "messages c \<noteq> []" by auto
    from len have "(if length ?ms > 50 then drop (length ?ms - 50) ?ms else ?ms)
                     = drop (Suc 0) ?ms"
      by simp
    also from ne have "drop (Suc 0) ?ms = tl (messages c) @ [?m]"
      by (rule drop_one_snoc)
    finally show ?thesis .
  qed
  show ?thesis
    using cap full by (simp only: eq) auto
qed

theorem add_message_cap_witness:
  "length (messages full_conversation) = 50 \<and>
   length (messages (fst (add_message (py ''one more'') True ''text'' None
                            full_conversation example_world))) = 50 \<and>
   last (messages (fst (add_message (py ''one more'') True ''text'' None
                          full_conversation example_world)))
     = \<lparr>m_id = ''id-'', content = py ''one more'', m_timestamp = 0, is_user = True,
        message_type = ''text'', m_metadata = []\<rparr> \<and>
   butlast (messages (fst (add_message (py ''one more'') True ''text'' None
                             full_conversation example_world)))
     = map example_message [1..<50]"
proof -
  have len: "length (messages full_conversation) = 50"
    by (simp add: full_conversation_def)
  have tail: "tl (messages full_conversation) = map example_message [1..<50]"
    by (simp add: full_conversation_def upt_rec [of 0] del: upt_Suc)
  have first_id: "fst (uuid4 example_world) = ''id-''"
    by (simp add: uuid4_def example_world_def)
  have t0: "fst (now example_world) = 0"
    by (simp add: now_def example_world_def)
  show ?thesis
    using add_message_cap [of "py ''one more''" True "''text''" None full_conversation
            example_world]
          len tail first_id t0
    by simp
qed

section \<open>The capture groups\<close>

text \<open>
  In the patterns of \<open>_extract_location\<close> and \<open>_extract_news_terms\<close> the group is not
  optional: whenever a pattern matches, \<open>match.group(1)\<close> is a string. The branch of
  \<open>first_location\<close> and \<open>first_news_terms\<close> for a group that took no part is never taken.
\<close>

lemma search_from_match:
  "search_from r ic p s = Some m \<Longrightarrow> \<exists>p' s'. match_at r ic p' s' = Some m"
  by (induction s arbitrary: p) (auto split: option.splits)

lemma match_at_groups:
  assumes "match_at r ic p s = Some m"
  shows "\<exists>st \<in> set (matches r ic \<lparr>prev = p, rest = s, groups = []\<rparr>). mgroups m = groups st"
  using assms by (auto simp: match_at_def split: list.splits)

lemma cued_group_present:
  assumes "st' \<in> set (matches (Seq (Lit cue) (Seq (plus ws) (Seq (Grp 1 g) tail))) ic st)"
      and "\<And>a b. b \<in> set (matches tail ic a) \<Longrightarrow> groups b = groups a"
  shows "map_of (groups st') 1 \<noteq> None"
proof -
  from assms(1) obtain a b where
    "a \<in> set (matches (Grp 1 g) ic b)" and "st' \<in> set (matches tail ic a)"
    by auto
  then have "map_of (groups a) 1 \<noteq> None" and "groups st' = groups a"
    using assms(2) by (auto simp: update_conv')
  then show ?thesis by simp
qed

lemma location_group_present:
  assumes "search (location_pattern cue) ic s = Some m"
  shows "group m 1 \<noteq> None"
proof -
  from assms obtain p' s' where "match_at (location_pattern cue) ic p' s' = Some m"
    unfolding search_def by (blast dest: search_from_match)
  from match_at_groups [OF this] obtain st where
    st: "st \<in> set (matches (location_pattern cue) ic \<lparr>prev = p', rest = s', groups = []\<rparr>)"
    and m: "mgroups m = groups st"
    by blast
  have "map_of (groups st) 1 \<noteq> None"
    using st unfolding location_pattern_def
    by (rule cued_group_present) (auto split: list.splits if_splits)
  with m show ?thesis by (simp add: group_def)
qed

lemma search_group_present:
  assumes "search (search_pattern cue) ic s = Some m"
  shows "group m 1 \<noteq> None"
proof -
  from assms obtain p' s' where "match_at (search_pattern cue) ic p' s' = Some m"
    unfolding search_def by (blast dest: search_from_match)
  from match_at_groups [OF this] obtain st where
    st: "st \<in> set (matches (search_pattern cue) ic \<lparr>prev = p', rest = s', groups = []\<rparr>)"
    and m: "mgroups m = groups st"
    by blast
  have "map_of (groups st) 1 \<noteq> None"
    using st unfolding search_pattern_def
    by (rule cued_group_present) (auto split: list.splits if_splits)
  with m show ?thesis by (simp add: group_def)
qed

section \<open>Three utterances\<close>

lemma paris_scores:
  "score_intents intent_keywords (lower ''What's the weather in Paris tomorrow?'') =
     [(''weather'', \<lparr>score = 1 / 20, matched_keywords = [''weather'']\<rparr>),
      (''calendar'', \<lparr>score = 1 / 16, matched_keywords = [''tomorrow'']\<rparr>)]"
  by code_simp

text \<open>
  C2. The claim: for \<open>What's the weather in Paris tomorrow?\<close> the classifier returns the
  intent \<open>weather\<close> with the entities \<open>location = Paris\<close> and \<open>time_reference = forecast\<close>.
  The code returns the intent \<open>calendar\<close>: one of 20 weather keywords occurs
  (\<open>weather\<close>, score 1/20) and one of 16 calendar keywords (\<open>tomorrow\<close>, score 1/16), and
  the calendar score is the greater. The entities are those of a calendar request.
\<close>

theorem paris_tomorrow_detected_as_calendar:
  "detect_intent ''What's the weather in Paris tomorrow?'' c =
     \<lparr>intent = ''calendar'', confidence = 1 / 8,
      entities = [(''action'', ''list''), (''date_reference'', ''tomorrow'')],
      parameters = [(''matched_keywords'', [''tomorrow''])]\<rparr>"
  by code_simp

lemma technology_news_category:
  "detect_news_category ''Technology news'' = Some ''science''"
  by code_simp

text \<open>
  C3. The claim: for \<open>Show me technology news\<close> the classifier returns the intent \<open>news\<close>
  with the category \<open>technology\<close>. The code returns the intent \<open>news\<close> with the category
  \<open>entertainment\<close>: the table of categories is searched in order, and \<open>show\<close> is a
  keyword of \<open>entertainment\<close>. Without \<open>show\<close> the category would be \<open>science\<close>, whose
  keywords include \<open>technology\<close> and which stands before \<open>technology\<close> in the table.
\<close>

theorem technology_news_detected_as_entertainment:
  "detect_intent ''Show me technology news'' c =
     \<lparr>intent = ''news'', confidence = 2 / 11,
      entities = [(''category'', ''entertainment'')],
      parameters = [(''matched_keywords'', [''news''])]\<rparr>"
  by code_simp

text \<open>
  C8. The claim: the location of a weather request is the whole phrase after the cue, up
  to the punctuation that ends the sentence or the end of the text, so that \<open>New York\<close>
  is found in \<open>weather in New York\<close>. The code finds \<open>New\<close>: the group of the pattern is
  lazy, and the white space behind the first word already ends the match.
\<close>

theorem new_york_location_is_cut:
  "extract_location ''weather in New York'' = Some ''New'' \<and>
   extract_location ''What's the weather in New York?'' = Some ''New''"
  by code_simp


section \<open>The intent classifier\<close>

lemma match_keywords_fold:
  "fold (\<lambda>keyword (n, matched).
           if contains keyword s then (n + 1, matched @ [keyword]) else (n, matched))
        kws (n0, acc)
   = (n0 + length (filter (\<lambda>k. contains k s) kws), acc @ filter (\<lambda>k. contains k s) kws)"
  by (induction kws arbitrary: n0 acc) simp_all

lemma match_keywords_eq:
  "match_keywords kws (lower u) = (length (hits kws u), hits kws u)"
  by (simp add: match_keywords_def match_keywords_fold hits_def)

lemma update_fresh: "k \<notin> fst ` set al \<Longrightarrow> AList.update k v al = al @ [(k, v)]"
  by (induction al) auto

lemma score_intents_fold:
  "distinct (map fst table) \<Longrightarrow> fst ` set acc \<inter> fst ` set table = {} \<Longrightarrow>
   fold (\<lambda>(intent_name, kws) intent_scores.
             (let (n, matched) = match_keywords kws (lower u)
              in if n > 0
                 then AList.update intent_name
                        \<lparr>score = of_nat n / of_nat (length kws), matched_keywords = matched\<rparr>
                        intent_scores
                 else intent_scores))
          table acc
   = acc @ map (scored u) (filter (qualifies u) table)"
proof (induction table arbitrary: acc)
  case Nil
  then show ?case by simp
next
  case (Cons e table)
  obtain name kws where e: "e = (name, kws)" by (cases e)
  show ?case
  proof (cases "hits kws u = []")
    case True
    with Cons e show ?thesis
      by (simp add: match_keywords_eq qualifies_def)
  next
    case False
    from Cons.prems e have fresh: "name \<notin> fst ` set acc" by auto
    from Cons.prems e have disj: "fst ` set (acc @ [(name, \<lparr>score = keyword_score kws u, matched_keywords = hits kws u\<rparr>)]) \<inter> fst ` set table = {}"
      by auto
    from Cons.prems have dist: "distinct (map fst table)" by simp
    show ?thesis
      using False e Cons.IH [OF dist disj] fresh
      by (simp add: match_keywords_eq qualifies_def scored_def update_fresh keyword_score_def)
  qed
qed

lemma score_intents_eq:
  "distinct (map fst table) \<Longrightarrow>
   score_intents table (lower u) = map (scored u) (filter (qualifies u) table)"
  using score_intents_fold [of table "[]" u] by (simp add: score_intents_def)

lemma max_by_map: "max_by f (g b) (map g xs) = g (max_by (\<lambda>x. f (g x)) b xs)"
  by (induction xs arbitrary: b) simp_all

lemma max_by_first_max:
  "\<exists>pre post. b # xs = pre @ max_by f b xs # post \<and>
     (\<forall>p \<in> set pre. f p < f (max_by f b xs)) \<and> (\<forall>q \<in> set post. f q \<le> f (max_by f b xs))"
proof (induction xs arbitrary: b)
  case Nil
  have "[b] = [] @ b # [] \<and> (\<forall>p \<in> set []. f p < f b) \<and> (\<forall>q \<in> set []. f q \<le> f b)"
    by simp
  then show ?case unfolding max_by.simps by blast
next
  case (Cons x xs)
  define b' where "b' = (if f x > f b then x else b)"
  define m where "m = max_by f b' xs"
  have step: "max_by f b (x # xs) = m"
    by (simp add: m_def b'_def)
  from Cons.IH [of b'] obtain pre post where
    dec: "b' # xs = pre @ m # post" and
    lt: "\<forall>p \<in> set pre. f p < f m" and le: "\<forall>q \<in> set post. f q \<le> f m"
    unfolding m_def by blast
  have b'_le: "f b' \<le> f m"
  proof (cases pre)
    case Nil
    with dec show ?thesis by simp
  next
    case (Cons p ps)
    with dec have "p = b'" by simp
    with lt Cons show ?thesis by auto
  qed
  show ?case
  proof (cases "f x > f b")
    case True
    then have "b' = x" by (simp add: b'_def)
    with dec have dec': "x # xs = pre @ m # post" by simp
    from True b'_le \<open>b' = x\<close> have "f b < f m" by simp
    with dec' lt le have
      "b # x # xs = (b # pre) @ m # post \<and>
       (\<forall>p \<in> set (b # pre). f p < f m) \<and> (\<forall>q \<in> set post. f q \<le> f m)"
      by simp
    then show ?thesis unfolding step by blast
  next
    case False
    then have "b' = b" by (simp add: b'_def)
    with dec have dec': "b # xs = pre @ m # post" by simp
    show ?thesis
    proof (cases pre)
      case Nil
      with dec' have mb: "m = b" and xs: "xs = post" by simp_all
      from False le mb xs have
        "b # x # xs = [] @ m # (x # xs) \<and>
         (\<forall>p \<in> set []. f p < f m) \<and> (\<forall>q \<in> set (x # xs). f q \<le> f m)"
        by auto
      then show ?thesis unfolding step by blast
    next
      case (Cons p ps)
      with dec' have pb: "p = b" and xs: "xs = ps @ m # post" by simp_all
      from lt Cons pb have "f b < f m" by simp
      with False have "f x < f m" by simp
      with lt le Cons pb xs have
        "b # x # xs = (b # x # ps) @ m # post \<and>
         (\<forall>p \<in> set (b # x # ps). f p < f m) \<and> (\<forall>q \<in> set post. f q \<le> f m)"
        by simp
      then show ?thesis unfolding step by blast
    qed
  qed
qed

lemma filter_split:
  "filter P xs = pre' @ m # post' \<Longrightarrow>
   \<exists>pre post. xs = pre @ m # post \<and> filter P pre = pre' \<and> filter P post = post' \<and> P m"
proof (induction pre' arbitrary: xs)
  case Nil
  then have "filter P xs = m # post'" by simp
  then obtain us vs where "xs = us @ m # vs" "\<forall>u\<in>set us. \<not> P u" "P m" "post' = filter P vs"
    unfolding filter_eq_Cons_iff by blast
  then have "xs = us @ m # vs \<and> filter P us = [] \<and> filter P vs = post' \<and> P m"
    by (simp add: filter_empty_conv)
  then show ?case by blast
next
  case (Cons a pre')
  then have "filter P xs = a # (pre' @ m # post')" by simp
  then obtain us vs where xs: "xs = us @ a # vs" and us: "\<forall>u\<in>set us. \<not> P u" and a: "P a"
    and vs: "pre' @ m # post' = filter P vs"
    unfolding filter_eq_Cons_iff by blast
  from Cons.IH [OF vs [symmetric]] obtain pre post where
    "vs = pre @ m # post" "filter P pre = pre'" "filter P post = post'" "P m"
    by blast
  with xs us a have
    "xs = (us @ a # pre) @ m # post \<and> filter P (us @ a # pre) = a # pre' \<and>
     filter P post = post' \<and> P m"
    by (simp add: filter_empty_conv)
  then show ?case by blast
qed

lemma intent_keywords_distinct: "distinct (map fst intent_keywords)"
  by (simp add: intent_keywords_def)

lemma general_not_in_table: "''general'' \<notin> fst ` set intent_keywords"
  by (simp add: intent_keywords_def)

lemma hits_empty_score: "hits kws u = [] \<Longrightarrow> keyword_score kws u = 0"
  by (simp add: keyword_score_def)

lemma hits_score_pos: "hits kws u \<noteq> [] \<Longrightarrow> 0 < keyword_score kws u"
proof -
  assume ne: "hits kws u \<noteq> []"
  then have "kws \<noteq> []" by (auto simp: hits_def)
  with ne show ?thesis by (simp add: keyword_score_def)
qed

lemma score_pos_iff: "0 < keyword_score kws u \<longleftrightarrow> hits kws u \<noteq> []"
  using hits_empty_score [of kws u] hits_score_pos [of kws u] by auto

lemma detect_intent_none:
  assumes "filter (qualifies u) intent_keywords = []"
  shows "detect_intent u c =
           \<lparr>intent = ''general'', confidence = 1 / 2, entities = [], parameters = []\<rparr>"
  using assms
  by (simp add: detect_intent_def score_intents_eq [OF intent_keywords_distinct])

lemma detect_intent_some:
  assumes "filter (qualifies u) intent_keywords = first # others"
      and "max_by (\<lambda>(n, k). keyword_score k u) first others = (name, kws)"
  shows "detect_intent u c =
           \<lparr>intent = name, confidence = min (keyword_score kws u * 2) 1,
            entities = extract_entities u name c,
            parameters = [(''matched_keywords'', hits kws u)]\<rparr>"
proof -
  have key: "(\<lambda>x. case scored u x of (k, e) \<Rightarrow> score e) = (\<lambda>(n, k). keyword_score k u)"
    by (auto simp: scored_def fun_eq_iff)
  have "max_by (\<lambda>(k, e). score e) (scored u first) (map (scored u) others)
          = scored u (name, kws)"
    using assms(2) by (simp add: max_by_map key)
  then show ?thesis
    using assms(1)
    by (simp add: detect_intent_def score_intents_eq [OF intent_keywords_distinct] scored_def)
qed

lemma qualifies_iff: "qualifies u (name, kws) \<longleftrightarrow> 0 < keyword_score kws u"
  by (simp add: qualifies_def score_pos_iff)

lemma not_qualifies_score: "\<not> qualifies u (name, kws) \<Longrightarrow> keyword_score kws u = 0"
  by (simp add: qualifies_def hits_empty_score)

lemma detect_intent_empty:
  "detect_intent [] c =
     \<lparr>intent = ''general'', confidence = 1 / 2, entities = [], parameters = []\<rparr>"
  by code_simp

text \<open>
  C1. The classifier scores every intent of the table (all intents but \<open>general\<close>) by
  \<open>keyword_score\<close>. If no intent has a positive score, the result is \<open>general\<close> with
  confidence 1/2 and no entities or parameters; so it is for the empty utterance. If some
  intent has a positive score, the result is the first intent of the table with the
  greatest score: every intent before it scores less, no intent behind it scores more.
  Its confidence is the lesser of twice the score and 1, and its parameters record the
  keywords found.
\<close>

theorem detect_intent_scoring:
  "((\<forall>(name, kws) \<in> set intent_keywords. keyword_score kws u = 0) \<longrightarrow>
      detect_intent u c =
        \<lparr>intent = ''general'', confidence = 1 / 2, entities = [], parameters = []\<rparr>) \<and>
   ((\<exists>(name, kws) \<in> set intent_keywords. 0 < keyword_score kws u) \<longrightarrow>
      (\<exists>pre name kws post.
         intent_keywords = pre @ (name, kws) # post \<and>
         0 < keyword_score kws u \<and>
         (\<forall>(n, k) \<in> set pre. keyword_score k u < keyword_score kws u) \<and>
         (\<forall>(n, k) \<in> set post. keyword_score k u \<le> keyword_score kws u) \<and>
         detect_intent u c =
           \<lparr>intent = name, confidence = min (keyword_score kws u * 2) 1,
            entities = extract_entities u name c,
            parameters = [(''matched_keywords'', hits kws u)]\<rparr>)) \<and>
   detect_intent [] c =
     \<lparr>intent = ''general'', confidence = 1 / 2, entities = [], parameters = []\<rparr>"
proof (intro conjI impI)
  assume none: "\<forall>(name, kws) \<in> set intent_keywords. keyword_score kws u = 0"
  have "filter (qualifies u) intent_keywords = []"
    unfolding filter_empty_conv
  proof
    fix e assume e: "e \<in> set intent_keywords"
    obtain name kws where "e = (name, kws)" by (cases e)
    with none e show "\<not> qualifies u e" by (auto simp: qualifies_iff)
  qed
  then show "detect_intent u c =
      \<lparr>intent = ''general'', confidence = 1 / 2, entities = [], parameters = []\<rparr>"
    by (rule detect_intent_none)
next
  assume "\<exists>(name, kws) \<in> set intent_keywords. 0 < keyword_score kws u"
  then obtain e where "e \<in> set intent_keywords" "qualifies u e"
    by (auto simp: qualifies_iff)
  then have "filter (qualifies u) intent_keywords \<noteq> []"
    by (auto simp: filter_empty_conv)
  then obtain first others where
    flt: "filter (qualifies u) intent_keywords = first # others"
    by (cases "filter (qualifies u) intent_keywords") auto
  define sc where "sc = (\<lambda>(n :: string, k). keyword_score k u)"
  obtain name kws where m: "max_by sc first others = (name, kws)"
    by (cases "max_by sc first others")
  from max_by_first_max [of first others sc] m obtain pre' post' where
    dec': "first # others = pre' @ (name, kws) # post'" and
    lt': "\<forall>p \<in> set pre'. sc p < sc (name, kws)" and
    le': "\<forall>q \<in> set post'. sc q \<le> sc (name, kws)"
    by auto
  from filter_split [of "qualifies u" intent_keywords pre' "(name, kws)" post'] flt dec'
  obtain pre post where
    dec: "intent_keywords = pre @ (name, kws) # post" and
    fpre: "filter (qualifies u) pre = pre'" and
    fpost: "filter (qualifies u) post = post'" and
    q: "qualifies u (name, kws)"
    by auto
  from q have pos: "0 < keyword_score kws u" by (simp add: qualifies_iff)
  have before: "\<forall>(n, k) \<in> set pre. keyword_score k u < keyword_score kws u"
  proof (clarify)
    fix n k assume nk: "(n, k) \<in> set pre"
    show "keyword_score k u < keyword_score kws u"
    proof (cases "qualifies u (n, k)")
      case True
      with nk fpre have "(n, k) \<in> set pre'" by auto
      with lt' show ?thesis by (auto simp: sc_def)
    next
      case False
      with pos show ?thesis by (simp add: not_qualifies_score)
    qed
  qed
  have behind: "\<forall>(n, k) \<in> set post. keyword_score k u \<le> keyword_score kws u"
  proof (clarify)
    fix n k assume nk: "(n, k) \<in> set post"
    show "keyword_score k u \<le> keyword_score kws u"
    proof (cases "qualifies u (n, k)")
      case True
      with nk fpost have "(n, k) \<in> set post'" by auto
      with le' show ?thesis by (auto simp: sc_def)
    next
      case False
      with pos show ?thesis by (simp add: not_qualifies_score)
    qed
  qed
  from detect_intent_some [OF flt m [unfolded sc_def]]
  have "detect_intent u c =
           \<lparr>intent = name, confidence = min (keyword_score kws u * 2) 1,
            entities = extract_entities u name c,
            parameters = [(''matched_keywords'', hits kws u)]\<rparr>" .
  with dec pos before behind
  show "\<exists>pre name kws post.
         intent_keywords = pre @ (name, kws) # post \<and>
         0 < keyword_score kws u \<and>
         (\<forall>(n, k) \<in> set pre. keyword_score k u < keyword_score kws u) \<and>
         (\<forall>(n, k) \<in> set post. keyword_score k u \<le> keyword_score kws u) \<and>
         detect_intent u c =
           \<lparr>intent = name, confidence = min (keyword_score kws u * 2) 1,
            entities = extract_entities u name c,
            parameters = [(''matched_keywords'', hits kws u)]\<rparr>"
    by blast
next
  show "detect_intent [] c =
     \<lparr>intent = ''general'', confidence = 1 / 2, entities = [], parameters = []\<rparr>"
    by (rule detect_intent_empty)
qed

theorem detect_intent_scoring_witness:
  "list_all (\<lambda>(name, kws). keyword_score kws ''Lorem ipsum'' = 0) intent_keywords \<and>
   detect_intent ''Lorem ipsum'' full_conversation =
     \<lparr>intent = ''general'', confidence = 1 / 2, entities = [], parameters = []\<rparr> \<and>
   (\<exists>(name, kws) \<in> set intent_keywords. 0 < keyword_score kws ''Any news on the weather?'') \<and>
   (\<exists>pre name kws post.
      intent_keywords = pre @ (name, kws) # post \<and>
      0 < keyword_score kws ''Any news on the weather?'' \<and>
      (\<forall>(n, k) \<in> set pre.
         keyword_score k ''Any news on the weather?'' < keyword_score kws ''Any news on the weather?'') \<and>
      (\<forall>(n, k) \<in> set post.
         keyword_score k ''Any news on the weather?'' \<le> keyword_score kws ''Any news on the weather?'') \<and>
      detect_intent ''Any news on the weather?'' full_conversation =
        \<lparr>intent = name,
         confidence = min (keyword_score kws ''Any news on the weather?'' * 2) 1,
         entities = extract_entities ''Any news on the weather?'' name full_conversation,
         parameters = [(''matched_keywords'', hits kws ''Any news on the weather?'')]\<rparr>) \<and>
   intent (detect_intent ''Any news on the weather?'' full_conversation) = ''news''"
proof -
  have none: "\<forall>(name, kws) \<in> set intent_keywords. keyword_score kws ''Lorem ipsum'' = 0"
    by code_simp
  have some: "\<exists>(name, kws) \<in> set intent_keywords. 0 < keyword_score kws ''Any news on the weather?''"
    by code_simp
  have news: "intent (detect_intent ''Any news on the weather?'' full_conversation) = ''news''"
    by code_simp
  have quiet: "list_all (\<lambda>(name, kws). keyword_score kws ''Lorem ipsum'' = 0) intent_keywords"
    using none by (simp add: list_all_iff)
  show ?thesis
    using none some news quiet
      detect_intent_scoring [of "''Lorem ipsum''" full_conversation]
      detect_intent_scoring [of "''Any news on the weather?''" full_conversation]
    by blast
qed

lemma max_by_mem: "max_by f b xs \<in> set (b # xs)"
  using max_by_first_max [of b xs f] by (metis in_set_conv_decomp)

lemma detect_intent_general:
  assumes "intent (detect_intent u c) = ''general''"
  shows "detect_intent u c' =
           \<lparr>intent = ''general'', confidence = 1 / 2, entities = [], parameters = []\<rparr>"
proof (cases "filter (qualifies u) intent_keywords")
  case Nil
  then show ?thesis by (rule detect_intent_none)
next
  case (Cons first others)
  obtain name kws where m: "max_by (\<lambda>(n, k). keyword_score k u) first others = (name, kws)"
    by (cases "max_by (\<lambda>(n, k). keyword_score k u) first others")
  have "(name, kws) \<in> set (first # others)"
    using max_by_mem [of "\<lambda>(n, k). keyword_score k u" first others] m by simp
  with Cons have "(name, kws) \<in> set intent_keywords"
    by (metis filter_is_subset subsetD)
  then have "name \<in> fst ` set intent_keywords" by force
  with general_not_in_table have "name \<noteq> ''general''" by metis
  moreover from detect_intent_some [OF Cons m, of c] assms have "name = ''general''" by simp
  ultimately show ?thesis by simp
qed

text \<open>
  C9. An utterance in which a greeting keyword occurs and no keyword of any other intent
  occurs is classified as \<open>greeting\<close>, with a confidence above 0.
\<close>

theorem greeting_only:
  assumes "hits greeting_keywords u \<noteq> []"
      and "\<forall>(name, kws) \<in> set intent_keywords. name \<noteq> ''greeting'' \<longrightarrow> hits kws u = []"
  shows "intent (detect_intent u c) = ''greeting'' \<and> 0 < confidence (detect_intent u c)"
proof -
  let ?g = greeting_keywords
  have flt: "filter (qualifies u) intent_keywords = [(''greeting'', ?g)]"
    using assms by (simp add: intent_keywords_def qualifies_def greeting_keywords_def)
  have m: "max_by (\<lambda>(n, k). keyword_score k u) (''greeting'', ?g) [] = (''greeting'', ?g)"
    by simp
  from detect_intent_some [OF flt m, of c] hits_score_pos [OF assms(1)]
  show ?thesis by simp
qed


theorem greeting_only_witness:
  "hits greeting_keywords ''Hey, good morning!'' = [''hey'', ''good morning''] \<and>
   list_all (\<lambda>(name, kws). name = ''greeting'' \<or> hits kws ''Hey, good morning!'' = [])
     intent_keywords \<and>
   intent (detect_intent ''Hey, good morning!'' full_conversation) = ''greeting'' \<and>
   0 < confidence (detect_intent ''Hey, good morning!'' full_conversation)"
proof -
  have some: "hits greeting_keywords ''Hey, good morning!'' \<noteq> []"
    by code_simp
  have only: "\<forall>(name, kws) \<in> set intent_keywords.
                name \<noteq> ''greeting'' \<longrightarrow> hits kws ''Hey, good morning!'' = []"
    by code_simp
  have found: "hits greeting_keywords ''Hey, good morning!'' = [''hey'', ''good morning'']"
    by code_simp
  have others: "list_all (\<lambda>(name, kws). name = ''greeting'' \<or> hits kws ''Hey, good morning!'' = [])
                  intent_keywords"
    using only by (auto simp: list_all_iff)
  show ?thesis
    using found others greeting_only [OF some only, of full_conversation]
    by blast
qed

section \<open>Processing a message\<close>

text \<open>
  The help text has the 567 code points that \<open>len\<close> counts in the text of the source.
\<close>

lemma help_message_length: "length help_message = 567"
  by (simp add: help_message_def join_lines_def bullet_def py_def dq_def)

lemma extract_entities_conversation: "extract_entities m i c = extract_entities m i c'"
  by (simp add: extract_entities_def)

lemma detect_intent_conversation: "detect_intent m c = detect_intent m c'"
  by (simp add: detect_intent_def Let_def split_def
        extract_entities_conversation [of m _ c c'] cong: list.case_cong)

lemma process_body_handled:
  assumes "get_or_create_conversation conversation_id prefs convs w = (Inr conv, convs1, w1)"
      and "handle_intent svc (detect_intent message conv) message
             (fst (add_message (py message) True ''text'' None conv w1))
             (snd (add_message (py message) True ''text'' None conv w1)) = (Inr response, w3)"
  shows "\<exists>convs' w' cid ts.
           process_body svc message conversation_id prefs convs w =
             (Inr \<lparr>success = True, data = Some response, error = None,
                   a_metadata = [(''conversation_id'', PStr cid),
                                 (''intent'', PStr (intent (detect_intent message conv))),
                                 (''confidence'', PFloat (confidence (detect_intent message conv)))],
                   a_timestamp = ts\<rparr>, convs', w')"
proof -
  have same: "detect_intent message (fst (add_message (py message) True ''text'' None conv w1))
                = detect_intent message conv"
    by (rule detect_intent_conversation)
  show ?thesis
    using assms by (simp add: process_body_def Let_def split_def same)
qed

lemma process_message_handled:
  assumes "get_or_create_conversation conversation_id prefs convs w = (Inr conv, convs1, w1)"
      and "handle_intent svc (detect_intent message conv) message
             (fst (add_message (py message) True ''text'' None conv w1))
             (snd (add_message (py message) True ''text'' None conv w1)) = (Inr response, w3)"
  shows "\<exists>cid ts.
           fst (process_message svc message conversation_id prefs convs w) =
             Inr \<lparr>success = True, data = Some response, error = None,
                  a_metadata = [(''conversation_id'', PStr cid),
                                (''intent'', PStr (intent (detect_intent message conv))),
                                (''confidence'', PFloat (confidence (detect_intent message conv)))],
                  a_timestamp = ts\<rparr>"
proof -
  from process_body_handled [OF assms] obtain convs' w' cid ts where
    "process_body svc message conversation_id prefs convs w =
             (Inr \<lparr>success = True, data = Some response, error = None,
                   a_metadata = [(''conversation_id'', PStr cid),
                                 (''intent'', PStr (intent (detect_intent message conv))),
                                 (''confidence'', PFloat (confidence (detect_intent message conv)))],
                   a_timestamp = ts\<rparr>, convs', w')"
    by blast
  then show ?thesis by (simp add: process_message_def)
qed

lemma get_or_create_triple:
  assumes "fst (get_or_create_conversation conversation_id prefs convs w) = Inr conv"
  obtains convs1 w1 where
    "get_or_create_conversation conversation_id prefs convs w = (Inr conv, convs1, w1)"
  using assms by (cases "get_or_create_conversation conversation_id prefs convs w") auto

lemma handle_general:
  assumes "intent detected = ''general''"
  shows "\<exists>response w'. handle_intent svc detected message c w = (Inr response, w') \<and>
           response_type response = ''general'' \<and> r_confidence response = 3 / 10"
  using assms
  by (simp add: handle_intent_def handle_general_intent_def make_response_def choice_def
        now_def Let_def split_def)

text \<open>
  C10. For an utterance classified as \<open>general\<close>, the response of the general handler has
  the confidence 3/10 and the metadata of the result report the confidence of the
  classifier, 1/2: the two confidences of one result differ.
\<close>

theorem general_confidences_differ:
  assumes "intent (detect_intent message c) = ''general''"
      and "fst (get_or_create_conversation conversation_id prefs convs w) = Inr conv"
  shows "\<exists>r response.
           fst (process_message svc message conversation_id prefs convs w) = Inr r \<and>
           success r \<and>
           data r = Some response \<and>
           response_type response = ''general'' \<and>
           r_confidence response = 3 / 10 \<and>
           map_of (a_metadata r) ''confidence'' = Some (PFloat (1 / 2)) \<and>
           PFloat (r_confidence response) \<noteq> PFloat (1 / 2)"
proof -
  from assms(2) obtain convs1 w1 where
    goc: "get_or_create_conversation conversation_id prefs convs w = (Inr conv, convs1, w1)"
    by (rule get_or_create_triple)
  have det: "detect_intent message conv =
               \<lparr>intent = ''general'', confidence = 1 / 2, entities = [], parameters = []\<rparr>"
    using assms(1) by (rule detect_intent_general)
  then have "intent (detect_intent message conv) = ''general''" by simp
  from handle_general [OF this] obtain response w3 where
    h: "handle_intent svc (detect_intent message conv) message
             (fst (add_message (py message) True ''text'' None conv w1))
             (snd (add_message (py message) True ''text'' None conv w1)) = (Inr response, w3)" and
    r: "response_type response = ''general''" "r_confidence response = 3 / 10"
    by blast
  from process_message_handled [OF goc h] obtain cid ts where
    "fst (process_message svc message conversation_id prefs convs w) =
             Inr \<lparr>success = True, data = Some response, error = None,
                  a_metadata = [(''conversation_id'', PStr cid),
                                (''intent'', PStr (intent (detect_intent message conv))),
                                (''confidence'', PFloat (confidence (detect_intent message conv)))],
                  a_timestamp = ts\<rparr>"
    by blast
  with r det show ?thesis by simp
qed

theorem general_confidences_differ_witness:
  "intent (detect_intent ''Lorem ipsum'' example_conversation) = ''general'' \<and>
   fst (get_or_create_conversation PNone PNone [] example_world) = Inr example_conversation \<and>
   (\<exists>r response.
      fst (process_message example_services ''Lorem ipsum'' PNone PNone [] example_world)
        = Inr r \<and>
      success r \<and>
      data r = Some response \<and>
      response_type response = ''general'' \<and>
      r_confidence response = 3 / 10 \<and>
      map_of (a_metadata r) ''confidence'' = Some (PFloat (1 / 2)) \<and>
      PFloat (r_confidence response) \<noteq> PFloat (1 / 2))"
proof -
  have gen: "intent (detect_intent ''Lorem ipsum'' example_conversation) = ''general''"
    by code_simp
  have goc: "fst (get_or_create_conversation PNone PNone [] example_world)
               = Inr example_conversation"
    by code_simp
  show ?thesis
    using gen goc general_confidences_differ [OF gen goc, of example_services]
    by blast
qed

lemma get_or_create_typed:
  assumes "conversation_id = PNone \<or> conversation_id = PStr s"
  shows "\<exists>conv. fst (get_or_create_conversation conversation_id prefs convs w) = Inr conv"
  using assms
  by (auto simp: get_or_create_conversation_def Let_def split_def
           split: option.splits)

lemma handle_failed_lookup:
  assumes "(intent detected = ''weather'' \<and> result = weather_lookup svc detected \<and>
            apology = ''Sorry, I couldn't get weather information. '') \<or>
           (intent detected = ''news'' \<and> result = news_lookup svc detected \<and>
            apology = ''Sorry, I couldn't get news information. '') \<or>
           (intent detected = ''calendar'' \<and>
            entity_or (entities detected) ''action'' ''list'' = ''list'' \<and>
            result = list_events svc \<and>
            apology = ''Sorry, I couldn't access your calendar. '')"
      and "\<not> success result"
  shows "\<exists>response w'. handle_intent svc detected message c w = (Inr response, w') \<and>
           response_type response = ''error'' \<and>
           r_message response = py (apology @ str_of (error result)) \<and>
           r_confidence response = confidence detected"
  using assms
  by (auto simp: handle_intent_def handle_weather_intent_def handle_news_intent_def
        handle_calendar_intent_def make_response_def now_def Let_def split_def)

text \<open>
  C6. When the call that the weather, news or calendar handler makes to its collaborator
  returns a failure, \<open>process_message\<close> returns a success result. Its response has the
  type \<open>error\<close>, its message is the apology of the handler followed by the error text of
  the collaborator, and its confidence is the confidence of the detected intent.
\<close>

theorem collaborator_failure_is_reported:
  assumes "fst (get_or_create_conversation conversation_id prefs convs w) = Inr conv"
      and "detected = detect_intent message conv"
      and "(intent detected = ''weather'' \<and> result = weather_lookup svc detected \<and>
            apology = ''Sorry, I couldn't get weather information. '') \<or>
           (intent detected = ''news'' \<and> result = news_lookup svc detected \<and>
            apology = ''Sorry, I couldn't get news information. '') \<or>
           (intent detected = ''calendar'' \<and>
            entity_or (entities detected) ''action'' ''list'' = ''list'' \<and>
            result = list_events svc \<and>
            apology = ''Sorry, I couldn't access your calendar. '')"
      and "\<not> success result"
  shows "\<exists>r response.
           fst (process_message svc message conversation_id prefs convs w) = Inr r \<and>
           success r \<and>
           error r = None \<and>
           data r = Some response \<and>
           response_type response = ''error'' \<and>
           r_message response = py (apology @ str_of (error result)) \<and>
           r_confidence response = confidence detected"
proof -
  from assms(1) obtain convs1 w1 where
    goc: "get_or_create_conversation conversation_id prefs convs w = (Inr conv, convs1, w1)"
    by (rule get_or_create_triple)
  from handle_failed_lookup [OF assms(3,4)] obtain response w3 where
    h: "handle_intent svc detected message
             (fst (add_message (py message) True ''text'' None conv w1))
             (snd (add_message (py message) True ''text'' None conv w1)) = (Inr response, w3)" and
    r: "response_type response = ''error''"
       "r_message response = py (apology @ str_of (error result))"
       "r_confidence response = confidence detected"
    by blast
  from process_message_handled [OF goc h [unfolded assms(2)]] obtain cid ts where
    "fst (process_message svc message conversation_id prefs convs w) =
             Inr \<lparr>success = True, data = Some response, error = None,
                  a_metadata = [(''conversation_id'', PStr cid),
                                (''intent'', PStr (intent (detect_intent message conv))),
                                (''confidence'', PFloat (confidence (detect_intent message conv)))],
                  a_timestamp = ts\<rparr>"
    by blast
  with r show ?thesis by simp
qed

theorem collaborator_failure_is_reported_witness:
  "fst (get_or_create_conversation PNone PNone [] example_world) = Inr example_conversation \<and>
   intent (detect_intent ''weather in Nowhereland'' example_conversation) = ''weather'' \<and>
   \<not> success (weather_lookup example_services
                (detect_intent ''weather in Nowhereland'' example_conversation)) \<and>
   (\<exists>r response.
      fst (process_message example_services ''weather in Nowhereland'' PNone PNone []
             example_world) = Inr r \<and>
      success r \<and>
      error r = None \<and>
      data r = Some response \<and>
      response_type response = ''error'' \<and>
      r_message response =
        py (''Sorry, I couldn't get weather information. Location '' @ quoted ''Nowhereland''
            @ '' not found'') \<and>
      r_confidence response = 1 / 10)"
proof -
  let ?d = "detect_intent ''weather in Nowhereland'' example_conversation"
  let ?r = "weather_lookup example_services ?d"
  have goc: "fst (get_or_create_conversation PNone PNone [] example_world)
               = Inr example_conversation"
    by code_simp
  have weather: "intent ?d = ''weather''"
    by code_simp
  have conf: "confidence ?d = 1 / 10"
    by code_simp
  have fail: "\<not> success ?r"
    by code_simp
  have reason: "str_of (error ?r) = ''Location '' @ quoted ''Nowhereland'' @ '' not found''"
    by code_simp
  have call: "(intent ?d = ''weather'' \<and> ?r = weather_lookup example_services ?d \<and>
            ''Sorry, I couldn't get weather information. ''
              = ''Sorry, I couldn't get weather information. '') \<or>
           (intent ?d = ''news'' \<and> ?r = news_lookup example_services ?d \<and>
            ''Sorry, I couldn't get weather information. ''
              = ''Sorry, I couldn't get news information. '') \<or>
           (intent ?d = ''calendar'' \<and>
            entity_or (entities ?d) ''action'' ''list'' = ''list'' \<and>
            ?r = list_events example_services \<and>
            ''Sorry, I couldn't get weather information. ''
              = ''Sorry, I couldn't access your calendar. '')"
    using weather by simp
  show ?thesis
    using goc weather fail
      collaborator_failure_is_reported [OF goc refl call fail]
    by (simp add: reason conf)
qed

lemma store_exception_in_body:
  assumes "get_or_create_conversation conversation_id prefs convs w = (Inl e, convs1, w1)"
  shows "process_body svc message conversation_id prefs convs w = (Inl e, convs1, w1)"
  using assms by (simp add: process_body_def)

lemma store_exception_leaves_store:
  assumes "get_or_create_conversation conversation_id prefs convs w = (Inl e, convs1, w1)"
  shows "convs1 = convs" and "w1 = w"
  using assms
  by (auto simp: get_or_create_conversation_def Let_def split_def
           split: if_splits sum.splits option.splits)

lemma store_exception_is_type_error:
  assumes "fst (get_or_create_conversation conversation_id prefs convs w) = Inl e"
  shows "exn_class e = ''TypeError''" and "derives_exception e"
proof -
  have raised: "find_conversation conversation_id convs = Inl e"
    using assms
    by (auto simp: get_or_create_conversation_def Let_def split_def
             split: if_splits sum.splits option.splits)
  then show "exn_class e = ''TypeError''" and "derives_exception e"
    by (cases conversation_id; auto)+
qed

lemma caught_exception_is_reported:
  assumes "process_body svc message conversation_id prefs convs w = (Inl e, convs1, w1)"
      and "derives_exception e"
  shows "process_message svc message conversation_id prefs convs w =
           (Inr \<lparr>success = False, data = None,
                  error = Some (''Failed to process message: '' @ exn_text e),
                  a_metadata = [], a_timestamp = fst (now w1)\<rparr>,
            convs1, snd (now w1))"
  using assms by (simp add: process_message_def split_def Let_def)

lemma other_exception_escapes:
  assumes "process_body svc message conversation_id prefs convs w = (Inl e, convs1, w1)"
      and "\<not> derives_exception e"
  shows "process_message svc message conversation_id prefs convs w = (Inl e, convs1, w1)"
  using assms by (simp add: process_message_def)

text \<open>
  C7. The claim: the error of a failure result is a fixed message that never contains
  the text of the exception. A conversation id that is a list cannot be hashed, so the
  look-up in the store raises a \<open>TypeError\<close>; the error of the result ends with the text
  of that exception, and it is another text when the id is a dict.
\<close>

theorem raw_exception_text_in_error:
  "fst (get_or_create_conversation (PList [PInt 1]) PNone [] example_world)
     = Inl (Exn True ''TypeError'' (''unhashable type: '' @ quoted ''list'')) \<and>
   fst (process_message example_services ''hi'' (PList [PInt 1]) PNone [] example_world)
     = Inr \<lparr>success = False, data = None,
            error = Some (''Failed to process message: unhashable type: '' @ quoted ''list''),
            a_metadata = [], a_timestamp = 0\<rparr> \<and>
   contains (''unhashable type: '' @ quoted ''list'')
     (''Failed to process message: unhashable type: '' @ quoted ''list'') \<and>
   fst (process_message example_services ''hi'' (PDict [(PStr ''a'', PInt 1)]) PNone []
          example_world)
     = Inr \<lparr>success = False, data = None,
            error = Some (''Failed to process message: unhashable type: '' @ quoted ''dict''),
            a_metadata = [], a_timestamp = 0\<rparr>"
  by code_simp

text \<open>
  C7, as amended. Outside the handlers an exception is raised by the look-up in the store
  (the classifier and the extractors raise none). When its class derives from
  \<open>Exception\<close>, \<open>process_message\<close> returns a failure result without data, whose error is
  the text \<open>Failed to process message: \<close> followed by the text of the exception; the
  exception does not leave the call.
\<close>

theorem store_exception_is_reported_with_its_text:
  assumes "fst (get_or_create_conversation conversation_id prefs convs w) = Inl e"
      and "derives_exception e"
  shows "\<exists>r. fst (process_message svc message conversation_id prefs convs w) = Inr r \<and>
             \<not> success r \<and>
             data r = None \<and>
             error r = Some (''Failed to process message: '' @ exn_text e)"
proof -
  from assms(1) obtain convs1 w1 where
    "get_or_create_conversation conversation_id prefs convs w = (Inl e, convs1, w1)"
    by (cases "get_or_create_conversation conversation_id prefs convs w") auto
  then have "process_body svc message conversation_id prefs convs w = (Inl e, convs1, w1)"
    by (rule store_exception_in_body)
  from caught_exception_is_reported [OF this assms(2)] show ?thesis
    by simp
qed

theorem store_exception_is_reported_with_its_text_witness:
  "fst (get_or_create_conversation (PList [PInt 1]) PNone [] example_world)
     = Inl (Exn True ''TypeError'' (''unhashable type: '' @ quoted ''list'')) \<and>
   derives_exception (Exn True ''TypeError'' (''unhashable type: '' @ quoted ''list'')) \<and>
   (\<exists>r. fst (process_message example_services ''hi'' (PList [PInt 1]) PNone [] example_world)
          = Inr r \<and>
        \<not> success r \<and>
        data r = None \<and>
        error r = Some (''Failed to process message: unhashable type: '' @ quoted ''list''))"
proof -
  let ?e = "Exn True ''TypeError'' (''unhashable type: '' @ quoted ''list'')"
  have raised: "fst (get_or_create_conversation (PList [PInt 1]) PNone [] example_world)
                  = Inl ?e"
    by code_simp
  have derived: "derives_exception ?e"
    by simp
  show ?thesis
    using raised derived
      store_exception_is_reported_with_its_text [OF raised derived, of example_services "''hi''"]
    by simp
qed

section \<open>The capacity of the store\<close>

lemma length_update_le: "length (AList.update k v al) \<le> Suc (length al)"
  by (induction al) auto

lemma length_delete_less: "k \<in> fst ` set al \<Longrightarrow> length (AList.delete k al) < length al"
proof (induction al)
  case Nil
  then show ?case by simp
next
  case (Cons p al)
  show ?case
  proof (cases "fst p = k")
    case True
    have "length (AList.delete k al) \<le> length al" by (rule length_delete_le)
    with True show ?thesis by simp
  next
    case False
    with Cons show ?thesis by auto
  qed
qed




lemma sort_key_nonempty: "xs \<noteq> [] \<Longrightarrow> sort_key f xs \<noteq> []"
  by (metis length_sort length_0_conv)

lemma hd_sort_mem: "xs \<noteq> [] \<Longrightarrow> hd (sort_key f xs) \<in> set xs"
  by (metis hd_in_set set_sort sort_key_nonempty)



lemma evict_oldest_small: "length convs \<le> 10 \<Longrightarrow> evict_oldest convs = convs"
  by (simp add: evict_oldest_def)

lemma evict_oldest_eleven:
  assumes "length convs = 11"
  shows "evict_oldest convs =
           AList.delete (fst (hd (sort_key (\<lambda>x. updated_at (snd x)) convs))) convs"
proof -
  let ?s = "sort_key (\<lambda>x. updated_at (snd x)) convs"
  from assms have "convs \<noteq> []" by auto
  then have "?s \<noteq> []" by (rule sort_key_nonempty)
  then have "take (Suc 0) ?s = [hd ?s]" by (cases ?s) auto
  with assms show ?thesis
    by (simp add: evict_oldest_def split_def)
qed

lemma evict_oldest_cap:
  assumes "length convs \<le> 11"
  shows "length (evict_oldest convs) \<le> 10"
proof (cases "length convs = 11")
  case True
  then have "convs \<noteq> []" by auto
  then have "fst (hd (sort_key (\<lambda>x. updated_at (snd x)) convs)) \<in> fst ` set convs"
    by (intro imageI hd_sort_mem)
  from length_delete_less [OF this] True show ?thesis
    by (simp add: evict_oldest_eleven)
next
  case False
  with assms show ?thesis by (simp add: evict_oldest_small)
qed

lemma evict_oldest_subset: "length convs \<le> 11 \<Longrightarrow> set (evict_oldest convs) \<subseteq> set convs"
  by (cases "length convs = 11")
     (auto simp: evict_oldest_eleven evict_oldest_small AList.delete_eq)

lemma evict_oldest_distinct:
  "length convs \<le> 11 \<Longrightarrow> distinct (map fst convs) \<Longrightarrow> distinct (map fst (evict_oldest convs))"
  by (cases "length convs = 11")
     (auto simp: evict_oldest_eleven evict_oldest_small intro: distinct_delete)

lemma new_conversation_id: "c_id (fst (new_conversation p w)) = fst (uuid4 w)"
  by (simp add: new_conversation_def uuid4_def now_def Let_def split_def)

lemma get_or_create_cases:
  assumes "get_or_create_conversation conversation_id prefs convs w = (res, convs', w')"
  shows "(\<exists>e. res = Inl e \<and> convs' = convs \<and> w' = w) \<or>
         (\<exists>s c. res = Inr c \<and> map_of convs s = Some c \<and> convs' = convs \<and> w' = w) \<or>
         (\<exists>p. res = Inr (fst (new_conversation p w)) \<and>
              convs' = evict_oldest (AList.update (c_id (fst (new_conversation p w)))
                                       (fst (new_conversation p w)) convs) \<and>
              w' = snd (new_conversation p w))"
proof -
  have found: "find_conversation conversation_id convs = Inr (Some c) \<Longrightarrow>
                 \<exists>s. map_of convs s = Some c" for c
    by (cases conversation_id) auto
  show ?thesis
    using assms found
    by (auto simp: get_or_create_conversation_def Let_def split_def
             split: if_splits sum.splits option.splits)
qed

lemma store_inv_entry:
  assumes "store_inv convs" and "(k, c) \<in> set convs"
  shows "c_id c = k"
  using assms by (auto simp: store_inv_def list_all_iff)




lemma store_inv_empty: "store_inv []"
  by (simp add: store_inv_def)

lemma update_entries: "set (AList.update k v al) \<subseteq> insert (k, v) (set al)"
  by (induction al) auto

lemma update_keys: "k \<in> fst ` set al \<Longrightarrow> map fst (AList.update k v al) = map fst al"
  by (induction al) auto

lemma update_length: "k \<in> fst ` set al \<Longrightarrow> length (AList.update k v al) = length al"
  by (induction al) auto

lemma store_back_inv:
  assumes "store_inv convs"
  shows "store_inv (store_back c convs)"
proof (cases "c_id c \<in> fst ` set convs")
  case False
  with assms show ?thesis by (simp add: store_back_def)
next
  case True
  have "set (AList.update (c_id c) c convs) \<subseteq> insert (c_id c, c) (set convs)"
    by (rule update_entries)
  with assms True show ?thesis
    by (auto simp: store_back_def store_inv_def list_all_iff update_keys update_length)
qed

lemma get_or_create_inv:
  assumes "store_inv convs"
      and "get_or_create_conversation conversation_id prefs convs w = (res, convs', w')"
  shows "store_inv convs'"
proof -
  from assms(1) have len: "length convs \<le> 10" and dist: "distinct (map fst convs)"
    by (simp_all add: store_inv_def)
  from get_or_create_cases [OF assms(2)] consider
    (same) "convs' = convs"
  | (created) p where
      "convs' = evict_oldest (AList.update (c_id (fst (new_conversation p w)))
                                (fst (new_conversation p w)) convs)"
    by blast
  then show ?thesis
  proof cases
    case same
    with assms(1) show ?thesis by simp
  next
    case created
    define c where "c = fst (new_conversation p w)"
    define X where "X = AList.update (c_id c) c convs"
    from created have convs': "convs' = evict_oldest X"
      by (simp add: c_def X_def)
    have lenX: "length X \<le> 11"
      using len length_update_le [of "c_id c" c convs] by (simp add: X_def)
    have distX: "distinct (map fst X)"
      unfolding X_def using dist by (rule distinct_update)
    have sub: "set convs' \<subseteq> insert (c_id c, c) (set convs)"
      using evict_oldest_subset [OF lenX] update_entries [of "c_id c" c convs]
      by (auto simp: convs' X_def)
    have "\<forall>(k, x) \<in> set convs'. c_id x = k"
    proof (clarify)
      fix k x assume "(k, x) \<in> set convs'"
      with sub have "(k, x) = (c_id c, c) \<or> (k, x) \<in> set convs" by auto
      then show "c_id x = k"
      proof
        assume "(k, x) = (c_id c, c)"
        then show ?thesis by simp
      next
        assume "(k, x) \<in> set convs"
        with assms(1) show ?thesis by (rule store_inv_entry)
      qed
    qed
    moreover have "length convs' \<le> 10"
      unfolding convs' using lenX by (rule evict_oldest_cap)
    moreover have "distinct (map fst convs')"
      unfolding convs' using lenX distX by (rule evict_oldest_distinct)
    ultimately show ?thesis
      by (simp add: store_inv_def list_all_iff)
  qed
qed

lemma process_body_inv:
  assumes "store_inv convs"
      and "process_body svc message conversation_id prefs convs w = (res, convs', w')"
  shows "store_inv convs'"
proof -
  obtain r1 convs1 w1 where
    goc: "get_or_create_conversation conversation_id prefs convs w = (r1, convs1, w1)"
    by (cases "get_or_create_conversation conversation_id prefs convs w") auto
  from get_or_create_inv [OF assms(1) goc] have inv1: "store_inv convs1" .
  show ?thesis
  proof (cases r1)
    case (Inl e)
    with assms(2) goc inv1 show ?thesis by (simp add: process_body_def)
  next
    case (Inr conv)
    define c2 where "c2 = fst (add_message (py message) True ''text'' None conv w1)"
    define w2 where "w2 = snd (add_message (py message) True ''text'' None conv w1)"
    define convs2 where "convs2 = store_back c2 convs1"
    define detected where "detected = detect_intent message c2"
    from inv1 have inv2: "store_inv convs2"
      unfolding convs2_def by (rule store_back_inv)
    obtain hr w3 where h: "handle_intent svc detected message c2 w2 = (hr, w3)"
      by (cases "handle_intent svc detected message c2 w2") auto
    show ?thesis
    proof (cases hr)
      case (Inl e)
      with assms(2) goc Inr h have "convs' = convs2"
        by (simp add: process_body_def Let_def split_def c2_def w2_def convs2_def
              detected_def)
      with inv2 show ?thesis by simp
    next
      case (Inr response)
      from assms(2) goc \<open>r1 = Inr conv\<close> h Inr
      have "\<exists>c. convs' = store_back c convs2"
        by (auto simp: process_body_def Let_def split_def c2_def w2_def convs2_def
              detected_def)
      with inv2 show ?thesis by (auto intro: store_back_inv)
    qed
  qed
qed

lemma process_message_inv:
  assumes "store_inv convs"
      and "process_message svc message conversation_id prefs convs w = (result, convs', w')"
  shows "store_inv convs'"
proof -
  obtain res convs1 w1 where
    body: "process_body svc message conversation_id prefs convs w = (res, convs1, w1)"
    by (cases "process_body svc message conversation_id prefs convs w") auto
  from process_body_inv [OF assms(1) body] have inv1: "store_inv convs1" .
  from assms(2) body have "convs' = convs1"
    by (cases res) (auto simp: process_message_def split_def Let_def split: if_splits)
  with inv1 show ?thesis by simp
qed

lemma serve_inv:
  "store_inv convs \<Longrightarrow> serve rs convs w = (convs', w') \<Longrightarrow> store_inv convs'"
proof (induction rs arbitrary: convs w)
  case Nil
  then show ?case by simp
next
  case (Cons r rs)
  obtain result convs1 w1 where
    p: "process_message (req_services r) (req_utterance r) (req_conversation r)
          (req_preferences r) convs w = (result, convs1, w1)"
    by (cases "process_message (req_services r) (req_utterance r) (req_conversation r)
                 (req_preferences r) convs w") auto
  from process_message_inv [OF Cons.prems(1) p] have "store_inv convs1" .
  moreover from Cons.prems(2) p have "serve rs convs1 w1 = (convs', w')" by simp
  ultimately show ?case by (rule Cons.IH)
qed

lemma served_store_inv: "serve rs [] w = (convs, w') \<Longrightarrow> store_inv convs"
  using store_inv_empty by (rule serve_inv)

end
